theory Spec2Isabelle
  imports Complex_Main
begin

section \<open>Numbers\<close>

text \<open>
  A JavaScript \<^verbatim>\<open>number\<close> is an IEEE-754 double. The model takes the finite values,
  as rationals; \<^verbatim>\<open>NaN\<close> and the infinities are outside it. \<^verbatim>\<open>Math.trunc\<close> drops the
  fractional part, rounding toward zero.
\<close>

type_synonym number = rat

definition Math_trunc :: "number \<Rightarrow> number" where
  "Math_trunc x = (if 0 \<le> x then of_int \<lfloor>x\<rfloor> else of_int \<lceil>x\<rceil>)"

text \<open>
  The result of an arithmetic operation on doubles is the exact result rounded to the
  nearest double, a tie going to the even significand. A double has a significand of 53
  bits and no bit below \<^verbatim>\<open>2^-1074\<close>. \<open>bitLength n\<close> is the number of binary digits
  of \<open>n\<close>; \<open>binaryExponent x\<close>, for a positive \<open>x\<close>, is the \<open>e\<close> with
  \<^verbatim>\<open>2^e <= x < 2^(e+1)\<close>; \<open>twoToThe k\<close> is \<^verbatim>\<open>2^k\<close>. A result beyond the largest
  double, which JavaScript gives as an infinity, is outside the model.
\<close>

fun bitLength :: "nat \<Rightarrow> nat" where
  "bitLength n = (if n = 0 then 0 else Suc (bitLength (n div 2)))"

declare bitLength.simps [simp del]

definition binaryExponent :: "rat \<Rightarrow> int" where
  "binaryExponent x =
     (if 1 \<le> x then int (bitLength (nat \<lfloor>x\<rfloor>)) - 1
      else - int (bitLength (nat (\<lceil>1 / x\<rceil> - 1))))"

definition twoToThe :: "int \<Rightarrow> rat" where
  "twoToThe k = (if 0 \<le> k then 2 ^ nat k else 1 / 2 ^ nat (- k))"

definition roundHalfEven :: "rat \<Rightarrow> int" where
  "roundHalfEven m =
     (let f = \<lfloor>m\<rfloor>; d = m - of_int f
      in if d < 1 / 2 then f else if 1 / 2 < d then f + 1
         else if even f then f else f + 1)"

definition roundToDouble :: "rat \<Rightarrow> number" where
  "roundToDouble x =
     (if x = 0 then 0
      else let ulp = twoToThe (max (binaryExponent \<bar>x\<bar> - 52) (- 1074))
           in sgn x * (of_int (roundHalfEven (\<bar>x\<bar> / ulp)) * ulp))"

text \<open>The operators \<^verbatim>\<open>*\<close>, \<^verbatim>\<open>/\<close> and \<^verbatim>\<open>+\<close> of JavaScript on doubles.\<close>

definition js_times :: "number \<Rightarrow> number \<Rightarrow> number" where
  "js_times x y = roundToDouble (x * y)"

definition js_divide :: "number \<Rightarrow> number \<Rightarrow> number" where
  "js_divide x y = roundToDouble (x / y)"

definition js_plus :: "number \<Rightarrow> number \<Rightarrow> number" where
  "js_plus x y = roundToDouble (x + y)"

section \<open>Collaborators of the uplink policy\<close>

text \<open>\<^verbatim>\<open>VideoCodecCapability\<close>: a codec name with the \<^verbatim>\<open>RTCRtpCodecCapability\<close> it wraps.\<close>

record RTCRtpCodecCapability =
  clockRate :: nat
  mimeType :: string
  sdpFmtpLine :: "string option"

record VideoCodecCapability =
  codecName :: string
  codecCapability :: RTCRtpCodecCapability

definition vp8 :: VideoCodecCapability where
  "vp8 = \<lparr>codecName = ''VP8'',
     codecCapability = \<lparr>clockRate = 90000, mimeType = ''video/VP8'', sdpFmtpLine = None\<rparr>\<rparr>"

definition h264ConstrainedBaselineProfile :: VideoCodecCapability where
  "h264ConstrainedBaselineProfile = \<lparr>codecName = ''H264'',
     codecCapability = \<lparr>clockRate = 90000, mimeType = ''video/H264'',
       sdpFmtpLine =
         Some ''level-asymmetry-allowed=1;packetization-mode=1;profile-level-id=42e01f''\<rparr>\<rparr>"

definition vp9Profile0 :: VideoCodecCapability where
  "vp9Profile0 = \<lparr>codecName = ''VP9'',
     codecCapability = \<lparr>clockRate = 90000, mimeType = ''video/VP9'',
       sdpFmtpLine = Some ''profile-id=0''\<rparr>\<rparr>"

definition vp9Profile1 :: VideoCodecCapability where
  "vp9Profile1 = \<lparr>codecName = ''VP9'',
     codecCapability = \<lparr>clockRate = 90000, mimeType = ''video/VP9'',
       sdpFmtpLine = Some ''profile-id=1''\<rparr>\<rparr>"

definition vp9Profile2 :: VideoCodecCapability where
  "vp9Profile2 = \<lparr>codecName = ''VP9'',
     codecCapability = \<lparr>clockRate = 90000, mimeType = ''video/VP9'',
       sdpFmtpLine = Some ''profile-id=2''\<rparr>\<rparr>"

definition vp9 :: VideoCodecCapability where
  "vp9 = vp9Profile0"

definition av1MainProfile :: VideoCodecCapability where
  "av1MainProfile = \<lparr>codecName = ''AV1'',
     codecCapability = \<lparr>clockRate = 90000, mimeType = ''video/AV1'', sdpFmtpLine = None\<rparr>\<rparr>"

definition av1 :: VideoCodecCapability where
  "av1 = av1MainProfile"

text \<open>
  \<^verbatim>\<open>MediaTrackSettings\<close>, \<^verbatim>\<open>RTCRtpEncodingParameters\<close> and the objects the policy
  walks through to reach them. A field that may be \<^verbatim>\<open>undefined\<close> or \<^verbatim>\<open>null\<close> is an
  option.
\<close>

record MediaTrackSettings =
  height :: "number option"
  width :: "number option"

record RTCRtpEncodingParameters =
  scaleResolutionDownBy :: "number option"
  maxBitrate :: "number option"

record MediaStreamTrack =
  getSettings :: "MediaTrackSettings option"

record RTCRtpSendParameters =
  encodings :: "RTCRtpEncodingParameters list option"

record RTCRtpSender =
  track :: "MediaStreamTrack option"
  getParameters :: "RTCRtpSendParameters option"

record RTCRtpTransceiver =
  sender :: "RTCRtpSender option"

text \<open>
  The transceiver controller is an interface to the policy. The model keeps what the
  policy reads from it (\<^verbatim>\<open>hasVideoInput()\<close>, \<^verbatim>\<open>localVideoTransceiver()\<close>) and
  records every \<^verbatim>\<open>setEncodingParameters(map)\<close> the policy sends to it, oldest first.
  What the controller then does to the sender is outside the policy (and asynchronous).
\<close>

record TransceiverController =
  hasVideoInput :: bool
  localVideoTransceiver :: "RTCRtpTransceiver option"
  setEncodingParametersCalls :: "(string \<rightharpoonup> RTCRtpEncodingParameters) list"

text \<open>The video stream index, of which the policy asks one count.\<close>

record VideoStreamIndex =
  numberOfVideoPublishingParticipantsExcludingSelf :: "string \<Rightarrow> nat"

text \<open>
  Modelled from the spec: the class \<^verbatim>\<open>DefaultVideoCaptureAndEncodeParameter\<close> is not
  among the sources. An object of it holds what the policy passes to its constructor:
  capture width, height and frame rate, the maximum encode bitrate in kbps, the simulcast
  flag and the resolution scale.
\<close>

record DefaultVideoAndEncodeParameter =
  cameraWidth :: number
  cameraHeight :: number
  cameraFrameRate :: number
  maxEncodeBitrateKbps :: number
  isSimulcast :: bool
  scaleDownBy :: number

text \<open>
  Modelled from the spec: the method \<^verbatim>\<open>equal\<close> of that class, by which
  \<^verbatim>\<open>wantsResubscribe()\<close> tells whether \<^verbatim>\<open>optimalParameters\<close> and
  \<^verbatim>\<open>parametersInEffect\<close> differ.
\<close>

definition equal :: "DefaultVideoAndEncodeParameter \<Rightarrow> DefaultVideoAndEncodeParameter \<Rightarrow> bool" where
  "equal this other = (this = other)"

text \<open>
  Modelled from the spec: the method \<^verbatim>\<open>clone\<close> of that class, which yields a copy; the
  copy of a value is the value.
\<close>

definition clone :: "DefaultVideoAndEncodeParameter \<Rightarrow> DefaultVideoAndEncodeParameter" where
  "clone this = this"

section \<open>NScaleVideoUplinkBandwidthPolicy\<close>

definition encodingMapKey :: string where
  "encodingMapKey = ''video''"

definition targetHeightArray :: "number list" where
  "targetHeightArray =
     [0, 0, 0, 540, 540, 480, 480, 480, 480, 360, 360, 360, 360,
      270, 270, 270, 270, 180, 180, 180, 180, 180, 180, 180, 180, 180]"

record NScaleVideoUplinkBandwidthPolicy =
  numParticipants :: nat
  optimalParameters :: DefaultVideoAndEncodeParameter
  parametersInEffect :: DefaultVideoAndEncodeParameter
  idealMaxBandwidthKbps :: number
  hasBandwidthPriority :: bool
  encodingParamMap :: "string \<rightharpoonup> RTCRtpEncodingParameters"
  transceiverController :: "TransceiverController option"
  videoCodecPreferences :: "VideoCodecCapability list"
  wantsResubscribeForVideoCodecPreferenceChange :: bool
  selfAttendeeId :: string
  scaleResolution :: bool

text \<open>
  The constructor. It gives \<^verbatim>\<open>DefaultVideoCaptureAndEncodeParameter\<close> five arguments;
  the scale, left out, is taken as 1.
\<close>

definition constructor :: "string \<Rightarrow> bool \<Rightarrow> NScaleVideoUplinkBandwidthPolicy" where
  "constructor selfId scaleRes =
     \<lparr>numParticipants = 0,
      optimalParameters = \<lparr>cameraWidth = 0, cameraHeight = 0, cameraFrameRate = 0,
        maxEncodeBitrateKbps = 0, isSimulcast = False, scaleDownBy = 1\<rparr>,
      parametersInEffect = \<lparr>cameraWidth = 0, cameraHeight = 0, cameraFrameRate = 0,
        maxEncodeBitrateKbps = 0, isSimulcast = False, scaleDownBy = 1\<rparr>,
      idealMaxBandwidthKbps = 1400,
      hasBandwidthPriority = False,
      encodingParamMap =
        [encodingMapKey \<mapsto> \<lparr>scaleResolutionDownBy = None, maxBitrate = Some 0\<rparr>],
      transceiverController = None,
      videoCodecPreferences = [],
      wantsResubscribeForVideoCodecPreferenceChange = False,
      selfAttendeeId = selfId,
      scaleResolution = scaleRes\<rparr>"

definition captureWidth :: "NScaleVideoUplinkBandwidthPolicy \<Rightarrow> number" where
  "captureWidth this = (if numParticipants this > 4 then 320 else 640)"

definition captureHeight :: "NScaleVideoUplinkBandwidthPolicy \<Rightarrow> number" where
  "captureHeight this = (if numParticipants this > 4 then 192 else 384)"

definition captureFrameRate :: "NScaleVideoUplinkBandwidthPolicy \<Rightarrow> number" where
  "captureFrameRate this = 15"

text \<open>
  \<^verbatim>\<open>maxBandwidthKbps\<close>. Every operation of the rate is rounded to a double before the
  next one and before \<^verbatim>\<open>Math.trunc\<close>.
\<close>

definition maxBandwidthKbps :: "NScaleVideoUplinkBandwidthPolicy \<Rightarrow> number" where
  "maxBandwidthKbps this =
     (if hasBandwidthPriority this then Math_trunc (idealMaxBandwidthKbps this)
      else
        let rate =
          (if numParticipants this \<le> 2 then idealMaxBandwidthKbps this
           else if numParticipants this \<le> 4
           then js_divide (js_times (idealMaxBandwidthKbps this) 2) 3
           else js_times
                  (js_divide
                     (js_plus (js_divide 544 11)
                        (js_divide 14880 (js_times 11 (of_nat (numParticipants this)))))
                     600)
                  (idealMaxBandwidthKbps this))
        in Math_trunc rate)"

definition setIdealMaxBandwidthKbps ::
  "number \<Rightarrow> NScaleVideoUplinkBandwidthPolicy \<Rightarrow> NScaleVideoUplinkBandwidthPolicy" where
  "setIdealMaxBandwidthKbps v this = this\<lparr>idealMaxBandwidthKbps := v\<rparr>"

definition setHasBandwidthPriority ::
  "bool \<Rightarrow> NScaleVideoUplinkBandwidthPolicy \<Rightarrow> NScaleVideoUplinkBandwidthPolicy" where
  "setHasBandwidthPriority v this = this\<lparr>hasBandwidthPriority := v\<rparr>"

definition setTransceiverController ::
  "TransceiverController option \<Rightarrow> NScaleVideoUplinkBandwidthPolicy
     \<Rightarrow> NScaleVideoUplinkBandwidthPolicy" where
  "setTransceiverController tc this = this\<lparr>transceiverController := tc\<rparr>"

text \<open>
  \<^verbatim>\<open>transceiverController?.localVideoTransceiver()?.sender?.track?.getSettings()\<close>:
  undefined as soon as one link of the chain is.
\<close>

definition getStreamCaptureSetting ::
  "NScaleVideoUplinkBandwidthPolicy \<Rightarrow> MediaTrackSettings option" where
  "getStreamCaptureSetting this =
     (case transceiverController this of None \<Rightarrow> None
      | Some tc \<Rightarrow>
         (case localVideoTransceiver tc of None \<Rightarrow> None
          | Some tr \<Rightarrow>
             (case sender tr of None \<Rightarrow> None
              | Some sndr \<Rightarrow>
                 (case track sndr of None \<Rightarrow> None
                  | Some trk \<Rightarrow> getSettings trk))))"

text \<open>
  \<^verbatim>\<open>calculateEncodingParameters\<close>. The log line it writes is left out. Both fields of
  the result are always set.
\<close>

definition calculateEncodingParameters ::
  "NScaleVideoUplinkBandwidthPolicy \<Rightarrow> MediaTrackSettings \<Rightarrow> RTCRtpEncodingParameters" where
  "calculateEncodingParameters this setting =
     (let maxBitrate = maxBandwidthKbps this * 1000;
          scale =
            (case (height setting, width setting) of
               (Some h, Some w) \<Rightarrow>
                 if scaleResolution this \<and> \<not> hasBandwidthPriority this
                    \<and> numParticipants this > 2
                 then
                   let targetHeight =
                     targetHeightArray
                       ! (min (numParticipants this) (length targetHeightArray - 1))
                   in max (min h w / targetHeight) 1
                 else 1
             | _ \<Rightarrow> 1)
      in \<lparr>scaleResolutionDownBy = Some scale, maxBitrate = Some maxBitrate\<rparr>)"

text \<open>
  \<^verbatim>\<open>shouldUpdateEndcodingParameters\<close> reads
  \<^verbatim>\<open>transceiverController.localVideoTransceiver().sender.getParameters()?.encodings?.[0]\<close>.
  The first three links are not guarded: a missing controller, transceiver or sender is a
  \<^verbatim>\<open>TypeError\<close>, the result \<open>None\<close> here. A missing field of the transceiver's
  encoding reads as \<^verbatim>\<open>undefined\<close>, which differs from every number.
\<close>

definition transceiverEncoding :: "RTCRtpSender \<Rightarrow> RTCRtpEncodingParameters option" where
  "transceiverEncoding sndr =
     (case getParameters sndr of None \<Rightarrow> None
      | Some ps \<Rightarrow>
         (case encodings ps of None \<Rightarrow> None
          | Some [] \<Rightarrow> None
          | Some (e # es) \<Rightarrow> Some e))"

definition shouldUpdateEndcodingParameters ::
  "NScaleVideoUplinkBandwidthPolicy \<Rightarrow> RTCRtpEncodingParameters \<Rightarrow> bool option" where
  "shouldUpdateEndcodingParameters this encoding =
     (case transceiverController this of None \<Rightarrow> None
      | Some tc \<Rightarrow>
         (case localVideoTransceiver tc of None \<Rightarrow> None
          | Some tr \<Rightarrow>
             (case sender tr of None \<Rightarrow> None
              | Some sndr \<Rightarrow>
                 Some (maxBitrate encoding
                         \<noteq> (case transceiverEncoding sndr of None \<Rightarrow> None
                            | Some te \<Rightarrow> maxBitrate te)
                       \<or> scaleResolutionDownBy encoding
                         \<noteq> (case transceiverEncoding sndr of None \<Rightarrow> None
                            | Some te \<Rightarrow> scaleResolutionDownBy te)))))"

text \<open>
  \<^verbatim>\<open>updateTransceiverController\<close>: \<open>None\<close> is the rejected promise (the
  \<^verbatim>\<open>TypeError\<close> above), \<open>Some\<close> the policy after the call. The push is the call
  \<^verbatim>\<open>setEncodingParameters(this.encodingParamMap)\<close>, recorded in the controller.
\<close>

definition updateTransceiverController ::
  "NScaleVideoUplinkBandwidthPolicy \<Rightarrow> NScaleVideoUplinkBandwidthPolicy option" where
  "updateTransceiverController this =
     (case getStreamCaptureSetting this of
        None \<Rightarrow> Some this
      | Some settings \<Rightarrow>
          let encodingParams = calculateEncodingParameters this settings in
          (case shouldUpdateEndcodingParameters this encodingParams of
             None \<Rightarrow> None
           | Some False \<Rightarrow> Some this
           | Some True \<Rightarrow>
               let m = (encodingParamMap this)(encodingMapKey \<mapsto> encodingParams) in
               Some (this\<lparr>encodingParamMap := m,
                      transceiverController :=
                        map_option
                          (\<lambda>tc. tc\<lparr>setEncodingParametersCalls :=
                                     setEncodingParametersCalls tc @ [m]\<rparr>)
                          (transceiverController this)\<rparr>)))"

text \<open>
  \<^verbatim>\<open>updateIndex\<close>. Without a transceiver controller the policy counts itself as a
  sender (\<^verbatim>\<open>hasLocalVideo\<close> stays \<^verbatim>\<open>true\<close>) and the scale stays 1. The scale is
  read from the encoding that \<^verbatim>\<open>calculateEncodingParameters\<close> returns, where the field
  is always set.
\<close>

definition updateIndex ::
  "VideoStreamIndex \<Rightarrow> NScaleVideoUplinkBandwidthPolicy \<Rightarrow> NScaleVideoUplinkBandwidthPolicy" where
  "updateIndex videoIndex this =
     (let hasLocalVideo =
            (case transceiverController this of None \<Rightarrow> True
             | Some tc \<Rightarrow> hasVideoInput tc);
          this1 = this\<lparr>numParticipants :=
                    numberOfVideoPublishingParticipantsExcludingSelf videoIndex
                      (selfAttendeeId this)
                    + (if hasLocalVideo then 1 else 0)\<rparr>;
          scale =
            (case transceiverController this1 of None \<Rightarrow> 1
             | Some tc \<Rightarrow>
                 (case getStreamCaptureSetting this1 of None \<Rightarrow> 1
                  | Some settings \<Rightarrow>
                      (case scaleResolutionDownBy (calculateEncodingParameters this1 settings)
                       of Some sc \<Rightarrow> sc | None \<Rightarrow> 1)))
      in this1\<lparr>optimalParameters :=
           \<lparr>cameraWidth = captureWidth this1,
            cameraHeight = captureHeight this1,
            cameraFrameRate = captureFrameRate this1,
            maxEncodeBitrateKbps = maxBandwidthKbps this1,
            isSimulcast = False,
            scaleDownBy = scale\<rparr>\<rparr>)"

definition wantsResubscribe :: "NScaleVideoUplinkBandwidthPolicy \<Rightarrow> bool" where
  "wantsResubscribe this =
     (wantsResubscribeForVideoCodecPreferenceChange this
      \<or> \<not> equal (parametersInEffect this) (optimalParameters this))"

text \<open>The operations that return a value and change the policy give both.\<close>

definition chooseCaptureAndEncodeParameters ::
  "NScaleVideoUplinkBandwidthPolicy
     \<Rightarrow> DefaultVideoAndEncodeParameter \<times> NScaleVideoUplinkBandwidthPolicy" where
  "chooseCaptureAndEncodeParameters this =
     (let this1 = this\<lparr>parametersInEffect := clone (optimalParameters this)\<rparr>
      in (clone (parametersInEffect this1), this1))"

definition setVideoCodecPreferences ::
  "VideoCodecCapability list \<Rightarrow> NScaleVideoUplinkBandwidthPolicy
     \<Rightarrow> NScaleVideoUplinkBandwidthPolicy" where
  "setVideoCodecPreferences preferences this =
     this\<lparr>videoCodecPreferences := preferences,
          wantsResubscribeForVideoCodecPreferenceChange := True\<rparr>"

definition chooseVideoCodecPreferences ::
  "NScaleVideoUplinkBandwidthPolicy
     \<Rightarrow> VideoCodecCapability list \<times> NScaleVideoUplinkBandwidthPolicy" where
  "chooseVideoCodecPreferences this =
     (let this1 = this\<lparr>wantsResubscribeForVideoCodecPreferenceChange := False\<rparr>
      in (videoCodecPreferences this1, this1))"

subsection \<open>Calls in sequence\<close>

text \<open>
  The public methods of the policy as a datatype, and the policy after one call and after
  a list of calls, oldest first. The queries and the methods with an empty body leave the
  policy as it is; a rejected \<^verbatim>\<open>updateTransceiverController\<close> has thrown before any
  assignment.
\<close>

datatype operation =
    UpdateConnectionMetric
  | ChooseMediaTrackConstraints
  | ChooseEncodingParameters
  | UpdateIndex VideoStreamIndex
  | WantsResubscribe
  | ChooseCaptureAndEncodeParameters
  | MaxBandwidthKbps
  | SetIdealMaxBandwidthKbps number
  | SetHasBandwidthPriority bool
  | SetTransceiverController "TransceiverController option"
  | UpdateTransceiverController
  | SetVideoCodecPreferences "VideoCodecCapability list"
  | ChooseVideoCodecPreferences

fun call :: "operation \<Rightarrow> NScaleVideoUplinkBandwidthPolicy \<Rightarrow> NScaleVideoUplinkBandwidthPolicy" where
  "call UpdateConnectionMetric this = this"
| "call ChooseMediaTrackConstraints this = this"
| "call ChooseEncodingParameters this = this"
| "call (UpdateIndex videoIndex) this = updateIndex videoIndex this"
| "call WantsResubscribe this = this"
| "call ChooseCaptureAndEncodeParameters this = snd (chooseCaptureAndEncodeParameters this)"
| "call MaxBandwidthKbps this = this"
| "call (SetIdealMaxBandwidthKbps v) this = setIdealMaxBandwidthKbps v this"
| "call (SetHasBandwidthPriority v) this = setHasBandwidthPriority v this"
| "call (SetTransceiverController tc) this = setTransceiverController tc this"
| "call UpdateTransceiverController this =
     (case updateTransceiverController this of None \<Rightarrow> this | Some this1 \<Rightarrow> this1)"
| "call (SetVideoCodecPreferences preferences) this = setVideoCodecPreferences preferences this"
| "call ChooseVideoCodecPreferences this = snd (chooseVideoCodecPreferences this)"

definition calls ::
  "operation list \<Rightarrow> NScaleVideoUplinkBandwidthPolicy \<Rightarrow> NScaleVideoUplinkBandwidthPolicy" where
  "calls ops this = foldl (\<lambda>s op. call op s) this ops"

subsection \<open>Notions of the specification\<close>

text \<open>
  The rate before truncation, in the four cases of the bandwidth formula, each operation
  in double arithmetic; and the same expression without any rounding.
\<close>

definition nominalRate :: "NScaleVideoUplinkBandwidthPolicy \<Rightarrow> number" where
  "nominalRate this =
     (if hasBandwidthPriority this then idealMaxBandwidthKbps this
      else if numParticipants this \<le> 2 then idealMaxBandwidthKbps this
      else if numParticipants this \<le> 4
      then js_divide (js_times (idealMaxBandwidthKbps this) 2) 3
      else js_times
             (js_divide
                (js_plus (js_divide 544 11)
                   (js_divide 14880 (js_times 11 (of_nat (numParticipants this)))))
                600)
             (idealMaxBandwidthKbps this))"

definition exactRate :: "NScaleVideoUplinkBandwidthPolicy \<Rightarrow> rat" where
  "exactRate this =
     (if hasBandwidthPriority this then idealMaxBandwidthKbps this
      else if numParticipants this \<le> 2 then idealMaxBandwidthKbps this
      else if numParticipants this \<le> 4 then idealMaxBandwidthKbps this * 2 / 3
      else ((544 / 11 + 14880 / (11 * of_nat (numParticipants this))) / 600)
             * idealMaxBandwidthKbps this)"

text \<open>
  A policy state within the model of doubles: the ideal bandwidth is a double, twice it
  does not overflow, and the participant count is a number that doubles count exactly.
\<close>

definition withinDoubleRange :: "NScaleVideoUplinkBandwidthPolicy \<Rightarrow> bool" where
  "withinDoubleRange this =
     (roundToDouble (idealMaxBandwidthKbps this) = idealMaxBandwidthKbps this
      \<and> \<bar>idealMaxBandwidthKbps this\<bar> < 2 ^ 1023
      \<and> numParticipants this < 2 ^ 53)"

text \<open>
  A codec-preference change is pending acknowledgment after a list of calls:
  \<^verbatim>\<open>setVideoCodecPreferences\<close> was called and \<^verbatim>\<open>chooseVideoCodecPreferences\<close> has not
  been called since.
\<close>

definition codecPreferenceChangePending :: "operation list \<Rightarrow> bool" where
  "codecPreferenceChangePending ops =
     (\<exists>before preferences after.
        ops = before @ SetVideoCodecPreferences preferences # after
        \<and> ChooseVideoCodecPreferences \<notin> set after)"

text \<open>
  Local capture is active: a transceiver controller is there and reports a video input.
\<close>

definition localCaptureActive :: "NScaleVideoUplinkBandwidthPolicy \<Rightarrow> bool" where
  "localCaptureActive this =
     (case transceiverController this of None \<Rightarrow> False | Some tc \<Rightarrow> hasVideoInput tc)"

text \<open>
  The first send encoding the local video transceiver reports now, and the maps the policy
  has pushed to its controller so far.
\<close>

definition liveSendEncoding ::
  "NScaleVideoUplinkBandwidthPolicy \<Rightarrow> RTCRtpEncodingParameters option" where
  "liveSendEncoding this =
     (case transceiverController this of None \<Rightarrow> None
      | Some tc \<Rightarrow>
         (case localVideoTransceiver tc of None \<Rightarrow> None
          | Some tr \<Rightarrow>
             (case sender tr of None \<Rightarrow> None
              | Some sndr \<Rightarrow> transceiverEncoding sndr)))"

definition pushes ::
  "NScaleVideoUplinkBandwidthPolicy \<Rightarrow> (string \<rightharpoonup> RTCRtpEncodingParameters) list" where
  "pushes this =
     (case transceiverController this of None \<Rightarrow> []
      | Some tc \<Rightarrow> setEncodingParametersCalls tc)"

text \<open>
  A controller with a camera: a video input, a track that reports 1280 x 720, and a
  sender whose parameters carry one encoding with no field set.
\<close>

definition cameraController :: TransceiverController where
  "cameraController =
     \<lparr>hasVideoInput = True,
      localVideoTransceiver = Some
        \<lparr>sender = Some
           \<lparr>track = Some \<lparr>getSettings = Some \<lparr>height = Some 720, width = Some 1280\<rparr>\<rparr>,
            getParameters = Some
              \<lparr>encodings = Some [\<lparr>scaleResolutionDownBy = None, maxBitrate = None\<rparr>]\<rparr>\<rparr>\<rparr>,
      setEncodingParametersCalls = []\<rparr>"

text \<open>
  Whether an encoding differs, in bitrate or in scale, from the first send encoding the
  transceiver reports now.
\<close>

definition differsFromLive ::
  "NScaleVideoUplinkBandwidthPolicy \<Rightarrow> RTCRtpEncodingParameters \<Rightarrow> bool" where
  "differsFromLive this encoding =
     (maxBitrate encoding
        \<noteq> (case liveSendEncoding this of None \<Rightarrow> None | Some te \<Rightarrow> maxBitrate te)
      \<or> scaleResolutionDownBy encoding
        \<noteq> (case liveSendEncoding this of None \<Rightarrow> None
           | Some te \<Rightarrow> scaleResolutionDownBy te))"

subsection \<open>Example policies\<close>

text \<open>
  An index that counts three other publishing participants; a new policy that was given
  the camera controller; and that policy after one \<^verbatim>\<open>updateTransceiverController\<close>.
\<close>

definition threeOthers :: VideoStreamIndex where
  "threeOthers = \<lparr>numberOfVideoPublishingParticipantsExcludingSelf = (\<lambda>attendeeId. 3)\<rparr>"

definition cameraPolicy :: NScaleVideoUplinkBandwidthPolicy where
  "cameraPolicy = setTransceiverController (Some cameraController) (constructor ''me'' True)"

definition cameraPolicyPushedOnce :: NScaleVideoUplinkBandwidthPolicy where
  "cameraPolicyPushedOnce = call UpdateTransceiverController cameraPolicy"

section \<open>The session description\<close>

text \<open>
  Modelled from the spec: the class \<^verbatim>\<open>DefaultSDP\<close>, which implements the interface
  \<^verbatim>\<open>SDP\<close>, is not among the sources. A media section has a media type and a direction
  attribute.
\<close>

datatype MediaType = Audio | Video | OtherMedia

datatype Direction = Sendrecv | Sendonly | Recvonly | Inactive

text \<open>
  Modelled from the spec: the codec entry of \<^verbatim>\<open>DefaultSDP\<close>, the view of a payload type
  that the \<^verbatim>\<open>a=rtpmap\<close> and \<^verbatim>\<open>a=fmtp\<close> lines of a section give: name, clock rate and
  fmtp parameter string.
\<close>

record CodecEntry =
  payloadType :: nat
  entryName :: string
  entryClockRate :: nat
  fmtp :: "string option"

text \<open>
  Modelled from the spec: the media section of \<^verbatim>\<open>DefaultSDP\<close>, with the payload types
  of its \<^verbatim>\<open>m=\<close> line in order and its codec entries. The lines that no operation below
  reads are kept as text.
\<close>

record MediaSection =
  mediaType :: MediaType
  direction :: Direction
  payloadTypes :: "nat list"
  codecEntries :: "CodecEntry list"
  otherLines :: "string list"

text \<open>
  Modelled from the spec: the session description of \<^verbatim>\<open>DefaultSDP\<close>, its session-level
  lines followed by the media sections.
\<close>

record SessionDescription =
  sessionLines :: "string list"
  mediaSections :: "MediaSection list"

text \<open>
  Modelled from the spec: the splitting of an fmtp parameter string, absent with
  \<^verbatim>\<open>DefaultSDP\<close>, at a separator character.
\<close>

fun splitOn :: "char \<Rightarrow> string \<Rightarrow> string list" where
  "splitOn c [] = [[]]"
| "splitOn c (x # xs) =
     (if x = c then [] # splitOn c xs
      else (case splitOn c xs of [] \<Rightarrow> [[x]] | w # ws \<Rightarrow> (x # w) # ws))"

text \<open>
  Modelled from the spec: the reading of the payload-type number of an \<^verbatim>\<open>apt=\<close>
  parameter, absent with \<^verbatim>\<open>DefaultSDP\<close>: the value of a decimal digit.
\<close>

definition digitValue :: "char \<Rightarrow> nat option" where
  "digitValue c = map_of (zip ''0123456789'' [0, 1, 2, 3, 4, 5, 6, 7, 8, 9]) c"

text \<open>
  Modelled from the spec: the same reading, absent with \<^verbatim>\<open>DefaultSDP\<close>: the number that
  a string of decimal digits, read after the digits that gave \<open>acc\<close>, stands for.
\<close>

fun parseDigits :: "nat \<Rightarrow> string \<Rightarrow> nat option" where
  "parseDigits acc [] = Some acc"
| "parseDigits acc (c # cs) =
     (case digitValue c of None \<Rightarrow> None | Some d \<Rightarrow> parseDigits (10 * acc + d) cs)"

text \<open>
  Modelled from the spec: the same reading, absent with \<^verbatim>\<open>DefaultSDP\<close>: a payload-type
  number is a string of decimal digits that is not empty.
\<close>

definition parseNumber :: "string \<Rightarrow> nat option" where
  "parseNumber s = (if s = [] then None else parseDigits 0 s)"

text \<open>
  Modelled from the spec: the parameters of an fmtp parameter string, absent with
  \<^verbatim>\<open>DefaultSDP\<close>; they are separated by \<^verbatim>\<open>;\<close>.
\<close>

definition fmtpParameters :: "string option \<Rightarrow> string list" where
  "fmtpParameters line = (case line of None \<Rightarrow> [] | Some s \<Rightarrow> splitOn CHR '';'' s)"

text \<open>
  Modelled from the spec: the payload type that the fmtp of a codec entry refers to by an
  \<^verbatim>\<open>apt=\<close> parameter, absent with \<^verbatim>\<open>DefaultSDP\<close>.
\<close>

definition aptParameter :: "CodecEntry \<Rightarrow> nat option" where
  "aptParameter e =
     (case find (\<lambda>p. take 4 p = ''apt='') (fmtpParameters (fmtp e)) of
        None \<Rightarrow> None
      | Some p \<Rightarrow> parseNumber (drop 4 p))"

text \<open>
  Modelled from the spec: the codec entry of a payload type in a section, absent with
  \<^verbatim>\<open>DefaultSDP\<close>.
\<close>

definition entryOf :: "MediaSection \<Rightarrow> nat \<Rightarrow> CodecEntry option" where
  "entryOf sec p = find (\<lambda>e. payloadType e = p) (codecEntries sec)"

text \<open>
  Modelled from the spec: step 1 of the reordering algorithm of
  \<^verbatim>\<open>withVideoSendCodecPreferences\<close>, absent with \<^verbatim>\<open>DefaultSDP\<close>. A payload type whose
  fmtp refers to another one by \<^verbatim>\<open>apt=\<close> is the rtx pairing of that one.
\<close>

definition aptOf :: "MediaSection \<Rightarrow> nat \<Rightarrow> nat option" where
  "aptOf sec p = (case entryOf sec p of None \<Rightarrow> None | Some e \<Rightarrow> aptParameter e)"

text \<open>
  Modelled from the spec: step 1 of that algorithm, absent with \<^verbatim>\<open>DefaultSDP\<close>. The
  payload types that are not an rtx pairing are primary.
\<close>

definition primaries :: "MediaSection \<Rightarrow> nat list" where
  "primaries sec = filter (\<lambda>p. aptOf sec p = None) (payloadTypes sec)"

text \<open>
  Modelled from the spec: step 1 of that algorithm, absent with \<^verbatim>\<open>DefaultSDP\<close>. The rtx
  pairing of a payload type is the payload type that refers to it, if there is one.
\<close>

definition rtxOf :: "MediaSection \<Rightarrow> nat \<Rightarrow> nat option" where
  "rtxOf sec p = find (\<lambda>q. aptOf sec q = Some p) (payloadTypes sec)"

text \<open>
  Modelled from the spec: step 1 of that algorithm, absent with \<^verbatim>\<open>DefaultSDP\<close>. A codec
  entry matches a preference when the names agree and every fmtp parameter of the
  preference is among its own.
\<close>

definition matchesPreference :: "VideoCodecCapability \<Rightarrow> CodecEntry \<Rightarrow> bool" where
  "matchesPreference preference e =
     (codecName preference = entryName e
      \<and> set (fmtpParameters (sdpFmtpLine (codecCapability preference)))
          \<subseteq> set (fmtpParameters (fmtp e)))"

text \<open>
  Modelled from the spec: step 1 of that algorithm, absent with \<^verbatim>\<open>DefaultSDP\<close>: whether
  a payload type of a section matches a preference.
\<close>

definition matches :: "MediaSection \<Rightarrow> VideoCodecCapability \<Rightarrow> nat \<Rightarrow> bool" where
  "matches sec preference p =
     (case entryOf sec p of None \<Rightarrow> False | Some e \<Rightarrow> matchesPreference preference e)"

text \<open>
  Modelled from the spec: step 2 of that algorithm, absent with \<^verbatim>\<open>DefaultSDP\<close>. The
  preferences are gone through in the caller's order, each placing the matching primary
  payload types that are not placed yet.
\<close>

fun placePreferred :: "MediaSection \<Rightarrow> VideoCodecCapability list \<Rightarrow> nat list \<Rightarrow> nat list" where
  "placePreferred sec [] placed = placed"
| "placePreferred sec (preference # preferences) placed =
     placePreferred sec preferences
       (placed @ filter (\<lambda>p. matches sec preference p \<and> p \<notin> set placed) (primaries sec))"

text \<open>
  Modelled from the spec: steps 2 and 3 of that algorithm, absent with \<^verbatim>\<open>DefaultSDP\<close>.
  A primary payload type is followed at once by its rtx pairing, if it has one.
\<close>

definition withRtx :: "MediaSection \<Rightarrow> nat \<Rightarrow> nat list" where
  "withRtx sec p = p # (case rtxOf sec p of None \<Rightarrow> [] | Some q \<Rightarrow> [q])"

text \<open>
  Modelled from the spec: steps 2 and 3 of that algorithm, absent with \<^verbatim>\<open>DefaultSDP\<close>.
  The matched primaries come first, each with its rtx pairing; the primaries left over
  follow in their original order, each with its rtx pairing. A payload type that is then
  still not placed (an rtx pairing that refers to no primary payload type of the section,
  or a further one that refers to a primary that has its pairing) follows last, in the
  original order, so that the reordering keeps the full set.
\<close>

definition reorderedPayloadTypes :: "MediaSection \<Rightarrow> VideoCodecCapability list \<Rightarrow> nat list" where
  "reorderedPayloadTypes sec preferences =
     (let matched = placePreferred sec preferences [];
          remaining = filter (\<lambda>p. p \<notin> set matched) (primaries sec);
          placed = concat (map (withRtx sec) (matched @ remaining))
      in placed @ filter (\<lambda>p. p \<notin> set placed) (payloadTypes sec))"

text \<open>
  Modelled from the spec: the sending video section of \<^verbatim>\<open>DefaultSDP\<close> is a video
  section whose direction permits sending.
\<close>

definition isSendingVideo :: "MediaSection \<Rightarrow> bool" where
  "isSendingVideo sec =
     (mediaType sec = Video \<and> (direction sec = Sendrecv \<or> direction sec = Sendonly))"

text \<open>
  Modelled from the spec: step 4 of that algorithm, absent with \<^verbatim>\<open>DefaultSDP\<close>. The
  first sending video section is rewritten, the other sections are left as they are.
\<close>

fun rewriteSendingVideo :: "(MediaSection \<Rightarrow> MediaSection) \<Rightarrow> MediaSection list \<Rightarrow> MediaSection list" where
  "rewriteSendingVideo f [] = []"
| "rewriteSendingVideo f (sec # secs) =
     (if isSendingVideo sec then f sec # secs else sec # rewriteSendingVideo f secs)"

text \<open>
  Modelled from the spec: \<^verbatim>\<open>withVideoSendCodecPreferences\<close> of \<^verbatim>\<open>DefaultSDP\<close>, steps 4
  and 5 of its algorithm. Only the payload-type list of the sending video section is
  rewritten, and nothing is done for an empty preference list or without such a section.
\<close>

definition withVideoSendCodecPreferences ::
  "VideoCodecCapability list \<Rightarrow> SessionDescription \<Rightarrow> SessionDescription" where
  "withVideoSendCodecPreferences preferences sdp =
     (if preferences = [] then sdp
      else sdp\<lparr>mediaSections :=
             rewriteSendingVideo
               (\<lambda>sec. sec\<lparr>payloadTypes := reorderedPayloadTypes sec preferences\<rparr>)
               (mediaSections sdp)\<rparr>)"

text \<open>
  The payload-type order of the sending video section of a description, and the relation
  of two payload types in an order: the first occurs, and wherever it occurs the second
  stands directly before it.
\<close>

definition sendingVideoSection :: "SessionDescription \<Rightarrow> MediaSection option" where
  "sendingVideoSection sdp = find isSendingVideo (mediaSections sdp)"

definition videoSendPayloadTypes :: "SessionDescription \<Rightarrow> nat list" where
  "videoSendPayloadTypes sdp =
     (case sendingVideoSection sdp of None \<Rightarrow> [] | Some sec \<Rightarrow> payloadTypes sec)"

definition immediatelyAfter :: "nat \<Rightarrow> nat \<Rightarrow> nat list \<Rightarrow> bool" where
  "immediatelyAfter q p order =
     (q \<in> set order
      \<and> (\<forall>j < length order. order ! j = q \<longrightarrow> 0 < j \<and> order ! (j - 1) = p))"

text \<open>The same, going through the order with the element before at hand.\<close>

fun precededBy :: "nat option \<Rightarrow> nat \<Rightarrow> nat \<Rightarrow> nat list \<Rightarrow> bool" where
  "precededBy before q p [] = True"
| "precededBy before q p (x # xs) =
     ((x = q \<longrightarrow> before = Some p) \<and> precededBy (Some x) q p xs)"

text \<open>
  An offer with an audio section and a sending video section whose payload types are VP8
  (96) with its rtx (97) and H.264 constrained baseline (98) with its rtx (99).
\<close>

definition exampleVideoSection :: MediaSection where
  "exampleVideoSection =
     \<lparr>mediaType = Video, direction = Sendrecv,
      payloadTypes = [96, 97, 98, 99],
      codecEntries =
        [\<lparr>payloadType = 96, entryName = ''VP8'', entryClockRate = 90000, fmtp = None\<rparr>,
         \<lparr>payloadType = 97, entryName = ''rtx'', entryClockRate = 90000,
           fmtp = Some ''apt=96''\<rparr>,
         \<lparr>payloadType = 98, entryName = ''H264'', entryClockRate = 90000,
           fmtp = Some
             ''level-asymmetry-allowed=1;packetization-mode=1;profile-level-id=42e01f''\<rparr>,
         \<lparr>payloadType = 99, entryName = ''rtx'', entryClockRate = 90000,
           fmtp = Some ''apt=98''\<rparr>],
      otherLines = [''a=mid:1'', ''a=rtcp-mux'']\<rparr>"

definition exampleOffer :: SessionDescription where
  "exampleOffer =
     \<lparr>sessionLines = [''v=0'', ''s=-'', ''t=0 0''],
      mediaSections =
        [\<lparr>mediaType = Audio, direction = Sendrecv, payloadTypes = [111],
          codecEntries =
            [\<lparr>payloadType = 111, entryName = ''opus'', entryClockRate = 48000,
               fmtp = Some ''minptime=10;useinbandfec=1''\<rparr>],
          otherLines = [''a=mid:0'']\<rparr>,
         exampleVideoSection]\<rparr>"

section \<open>SetLocalDescriptionTask\<close>

text \<open>
  What the task reads from its context: the peer connection, of which the model keeps the
  offers given to \<^verbatim>\<open>setLocalDescription\<close>, oldest first; the offer to start from; the
  uplink policy, which may or may not have the optional method
  \<^verbatim>\<open>chooseVideoCodecPreferences\<close>; and the audio profile, if any.
\<close>

record RTCPeerConnection =
  setLocalDescriptionCalls :: "SessionDescription list"

record AudioProfile =
  audioBitrateBps :: number
  isStereo :: bool

datatype VideoUplinkBandwidthPolicy =
    PolicyWithCodecPreferences NScaleVideoUplinkBandwidthPolicy
  | PolicyWithoutCodecPreferences

record AudioVideoControllerState =
  peer :: RTCPeerConnection
  sdpOfferInit :: SessionDescription
  videoUplinkBandwidthPolicy :: VideoUplinkBandwidthPolicy
  audioProfile :: "AudioProfile option"

text \<open>
  The code the task calls that is not among the sources is a parameter: the answer of
  \<^verbatim>\<open>DefaultBrowserBehavior.requiresDisablingH264Encoding()\<close> and three operations of
  \<^verbatim>\<open>DefaultSDP\<close>.
\<close>

record Environment =
  requiresDisablingH264Encoding :: bool
  removeH264SupportFromSendSection :: "SessionDescription \<Rightarrow> SessionDescription"
  withAudioMaxAverageBitrate :: "number \<Rightarrow> SessionDescription \<Rightarrow> SessionDescription"
  withStereoAudio :: "SessionDescription \<Rightarrow> SessionDescription"

text \<open>
  A thrown value is an \<^verbatim>\<open>Error\<close> with its message. A promise is pending until it is
  fulfilled or rejected, and settles once: resolving or rejecting a settled promise does
  nothing.
\<close>

datatype JsError = Error string

datatype PromiseState = Pending | Fulfilled | Rejected JsError

definition settle :: "PromiseState \<Rightarrow> PromiseState option \<Rightarrow> PromiseState option" where
  "settle outcome promise = (case promise of Some Pending \<Rightarrow> Some outcome | _ \<Rightarrow> promise)"

text \<open>
  The task: its context, its name (\<^verbatim>\<open>name()\<close> of \<^verbatim>\<open>BaseTask\<close>, which is not among
  the sources), whether \<^verbatim>\<open>cancelPromise\<close> is set, the promise that \<^verbatim>\<open>run()\<close> awaits
  (none before \<^verbatim>\<open>run()\<close>), the promise that \<^verbatim>\<open>peer.setLocalDescription\<close> returned
  (none before the call), and whether the executor of the awaited promise is suspended at
  its own \<^verbatim>\<open>await\<close> of that call.
\<close>

record SetLocalDescriptionTask =
  taskContext :: AudioVideoControllerState
  name :: string
  cancelPromise :: bool
  awaited :: "PromiseState option"
  setLocalDescriptionPromise :: "PromiseState option"
  executorSuspended :: bool

definition newTask :: "AudioVideoControllerState \<Rightarrow> string \<Rightarrow> SetLocalDescriptionTask" where
  "newTask ctx taskName =
     \<lparr>taskContext = ctx, name = taskName, cancelPromise = False, awaited = None,
      setLocalDescriptionPromise = None, executorSuspended = False\<rparr>"

text \<open>
  \<^verbatim>\<open>run()\<close> up to its suspension: the offer is prepared, \<^verbatim>\<open>cancelPromise\<close> is set,
  \<^verbatim>\<open>peer.setLocalDescription\<close> is called with the offer, and both the executor and
  \<^verbatim>\<open>run()\<close> wait.
\<close>

definition prepareOffer ::
  "Environment \<Rightarrow> AudioVideoControllerState
     \<Rightarrow> SessionDescription \<times> VideoUplinkBandwidthPolicy" where
  "prepareOffer env ctx =
     (let sdp0 = sdpOfferInit ctx;
          sdp1 = (if requiresDisablingH264Encoding env
                  then removeH264SupportFromSendSection env sdp0 else sdp0);
          (sdp2, policy) =
            (case videoUplinkBandwidthPolicy ctx of
               PolicyWithoutCodecPreferences \<Rightarrow> (sdp1, PolicyWithoutCodecPreferences)
             | PolicyWithCodecPreferences pol \<Rightarrow>
                 (let (preferences, pol1) = chooseVideoCodecPreferences pol
                  in (if length preferences > 0
                      then withVideoSendCodecPreferences preferences sdp1 else sdp1,
                      PolicyWithCodecPreferences pol1)));
          sdp3 =
            (case audioProfile ctx of
               None \<Rightarrow> sdp2
             | Some profile \<Rightarrow>
                 (let sdp = withAudioMaxAverageBitrate env (audioBitrateBps profile) sdp2
                  in if isStereo profile then withStereoAudio env sdp else sdp))
      in (sdp3, policy))"

definition run :: "Environment \<Rightarrow> SetLocalDescriptionTask \<Rightarrow> SetLocalDescriptionTask" where
  "run env this =
     (let (sdpOffer, policy) = prepareOffer env (taskContext this);
          ctx = (taskContext this)
            \<lparr>videoUplinkBandwidthPolicy := policy,
             peer := (peer (taskContext this))
               \<lparr>setLocalDescriptionCalls :=
                  setLocalDescriptionCalls (peer (taskContext this)) @ [sdpOffer]\<rparr>\<rparr>
      in this\<lparr>taskContext := ctx, cancelPromise := True, awaited := Some Pending,
              setLocalDescriptionPromise := Some Pending, executorSuspended := True\<rparr>)"

text \<open>
  What can happen while \<^verbatim>\<open>run()\<close> is suspended. \<^verbatim>\<open>cancel()\<close> is called. The promise
  of \<^verbatim>\<open>peer.setLocalDescription\<close> is fulfilled or rejected; it settles once, and the
  executor is not resumed by that alone: \<^verbatim>\<open>cancelPromise\<close> stays set. Later the
  executor resumes from its \<^verbatim>\<open>await\<close>: it calls \<^verbatim>\<open>resolve()\<close> or
  \<^verbatim>\<open>reject(error)\<close>, as that promise was settled, and then deletes \<^verbatim>\<open>cancelPromise\<close>
  in its \<^verbatim>\<open>finally\<close> block. It cannot resume while that promise is pending.
\<close>

definition cancel :: "SetLocalDescriptionTask \<Rightarrow> SetLocalDescriptionTask" where
  "cancel this =
     (if cancelPromise this
      then this\<lparr>awaited := settle (Rejected (Error (''canceling '' @ name this))) (awaited this),
                cancelPromise := False\<rparr>
      else this)"

definition setLocalDescriptionFulfilled ::
  "SetLocalDescriptionTask \<Rightarrow> SetLocalDescriptionTask" where
  "setLocalDescriptionFulfilled this =
     this\<lparr>setLocalDescriptionPromise := settle Fulfilled (setLocalDescriptionPromise this)\<rparr>"

definition setLocalDescriptionRejected ::
  "JsError \<Rightarrow> SetLocalDescriptionTask \<Rightarrow> SetLocalDescriptionTask" where
  "setLocalDescriptionRejected error this =
     this\<lparr>setLocalDescriptionPromise :=
            settle (Rejected error) (setLocalDescriptionPromise this)\<rparr>"

definition executorResumes :: "SetLocalDescriptionTask \<Rightarrow> SetLocalDescriptionTask" where
  "executorResumes this =
     (if executorSuspended this
      then (case setLocalDescriptionPromise this of
              Some Fulfilled \<Rightarrow>
                this\<lparr>awaited := settle Fulfilled (awaited this),
                     cancelPromise := False, executorSuspended := False\<rparr>
            | Some (Rejected error) \<Rightarrow>
                this\<lparr>awaited := settle (Rejected error) (awaited this),
                     cancelPromise := False, executorSuspended := False\<rparr>
            | _ \<Rightarrow> this)
      else this)"

datatype event =
    Cancel
  | SetLocalDescriptionFulfilled
  | SetLocalDescriptionRejected JsError
  | ExecutorResumes

fun step :: "event \<Rightarrow> SetLocalDescriptionTask \<Rightarrow> SetLocalDescriptionTask" where
  "step Cancel this = cancel this"
| "step SetLocalDescriptionFulfilled this = setLocalDescriptionFulfilled this"
| "step (SetLocalDescriptionRejected error) this = setLocalDescriptionRejected error this"
| "step ExecutorResumes this = executorResumes this"

definition steps :: "event list \<Rightarrow> SetLocalDescriptionTask \<Rightarrow> SetLocalDescriptionTask" where
  "steps evs this = foldl (\<lambda>t ev. step ev t) this evs"

text \<open>
  How \<^verbatim>\<open>run()\<close> ends: it completes when the awaited promise is fulfilled and fails with
  the error when it is rejected.
\<close>

datatype RunOutcome = NotStarted | Suspended | Completed | Failed JsError

definition outcome :: "SetLocalDescriptionTask \<Rightarrow> RunOutcome" where
  "outcome this =
     (case awaited this of
        None \<Rightarrow> NotStarted
      | Some Pending \<Rightarrow> Suspended
      | Some Fulfilled \<Rightarrow> Completed
      | Some (Rejected error) \<Rightarrow> Failed error)"

definition commits :: "SetLocalDescriptionTask \<Rightarrow> nat" where
  "commits this = length (setLocalDescriptionCalls (peer (taskContext this)))"

text \<open>
  As long as the executor has not resumed, either the hook is set and the awaited promise
  is pending, or an earlier \<^verbatim>\<open>cancel()\<close> has rejected it.
\<close>

definition cancellable :: "SetLocalDescriptionTask \<Rightarrow> SetLocalDescriptionTask \<Rightarrow> bool" where
  "cancellable this0 this =
     (name this = name this0
      \<and> ((cancelPromise this \<and> awaited this = Some Pending)
          \<or> awaited this = Some (Rejected (Error (''canceling '' @ name this0)))))"

text \<open>A context for examples: the example offer, the camera policy with a preference.\<close>

definition exampleEnvironment :: Environment where
  "exampleEnvironment =
     \<lparr>requiresDisablingH264Encoding = False,
      removeH264SupportFromSendSection = (\<lambda>sdp. sdp),
      withAudioMaxAverageBitrate = (\<lambda>bps sdp. sdp),
      withStereoAudio = (\<lambda>sdp. sdp)\<rparr>"

definition exampleContext :: AudioVideoControllerState where
  "exampleContext =
     \<lparr>peer = \<lparr>setLocalDescriptionCalls = []\<rparr>,
      sdpOfferInit = exampleOffer,
      videoUplinkBandwidthPolicy =
        PolicyWithCodecPreferences
          (setVideoCodecPreferences [h264ConstrainedBaselineProfile] cameraPolicy),
      audioProfile = None\<rparr>"

definition exampleTask :: SetLocalDescriptionTask where
  "exampleTask = newTask exampleContext ''SetLocalDescriptionTask''"

section \<open>Properties of the uplink policy\<close>

subsection \<open>Doubles\<close>

lemma floor_rat_numeral_div:
  "\<lfloor>(numeral a :: rat) / numeral b\<rfloor> = numeral a div numeral b"
  using floor_divide_of_int_eq [of "numeral a" "numeral b", where ?'a = rat] by simp

lemma ceiling_rat_numeral_div:
  "\<lceil>(numeral a :: rat) / numeral b\<rceil> = - (- numeral a div numeral b)"
  using floor_divide_of_int_eq [of "- numeral a" "numeral b", where ?'a = rat]
  by (simp add: ceiling_def)

lemma Math_trunc_nonneg: "0 \<le> x \<Longrightarrow> Math_trunc x = of_int \<lfloor>x\<rfloor>"
  by (simp add: Math_trunc_def)

lemma twoToThe_pos: "0 < twoToThe k"
  by (simp add: twoToThe_def)

lemma roundHalfEven_nonneg: "0 \<le> m \<Longrightarrow> 0 \<le> roundHalfEven m"
  by (simp add: roundHalfEven_def Let_def)

lemma roundToDouble_nonneg:
  assumes "0 \<le> x"
  shows "0 \<le> roundToDouble x"
proof (cases "x = 0")
  case True
  then show ?thesis by (simp add: roundToDouble_def)
next
  case False
  let ?ulp = "twoToThe (max (binaryExponent \<bar>x\<bar> - 52) (- 1074))"
  have "0 \<le> \<bar>x\<bar> / ?ulp" using twoToThe_pos [of "max (binaryExponent \<bar>x\<bar> - 52) (- 1074)"]
    by simp
  then have "0 \<le> roundHalfEven (\<bar>x\<bar> / ?ulp)" by (rule roundHalfEven_nonneg)
  then have "0 \<le> of_int (roundHalfEven (\<bar>x\<bar> / ?ulp)) * ?ulp"
    using twoToThe_pos [of "max (binaryExponent \<bar>x\<bar> - 52) (- 1074)"] by simp
  moreover from assms have "0 \<le> sgn x" by (simp add: sgn_if)
  ultimately have "0 \<le> sgn x * (of_int (roundHalfEven (\<bar>x\<bar> / ?ulp)) * ?ulp)"
    by simp
  with False show ?thesis by (simp add: roundToDouble_def Let_def)
qed

text \<open>
  The exponent is the right one, the rounded value is a multiple of the unit in the last
  place, and it is at most half a unit from the exact value.
\<close>

lemma bitLength_bounds:
  "0 < n \<Longrightarrow> 2 ^ (bitLength n - 1) \<le> n \<and> n < 2 ^ bitLength n"
proof (induction n rule: bitLength.induct)
  case (1 n)
  show ?case
  proof (cases "n div 2 = 0")
    case True
    with "1.prems" have "n = 1" by linarith
    then show ?thesis
      by (simp add: bitLength.simps [of 1] bitLength.simps [of "Suc 0"] bitLength.simps [of 0])
  next
    case False
    then have pos: "0 < n div 2" by simp
    with "1.prems" "1.IH" have ih: "2 ^ (bitLength (n div 2) - 1) \<le> n div 2"
      "n div 2 < 2 ^ bitLength (n div 2)" by simp_all
    from pos have bl: "0 < bitLength (n div 2)"
      by (subst bitLength.simps) simp
    have eq: "bitLength n = Suc (bitLength (n div 2))"
      using "1.prems" by (subst bitLength.simps) simp
    from ih(1) have "2 * 2 ^ (bitLength (n div 2) - 1) \<le> n" by linarith
    moreover from bl have "2 * 2 ^ (bitLength (n div 2) - 1) = (2::nat) ^ bitLength (n div 2)"
      by (cases "bitLength (n div 2)") simp_all
    ultimately have lower: "2 ^ bitLength (n div 2) \<le> n" by simp
    from ih(2) have upper: "n < 2 * 2 ^ bitLength (n div 2)" by linarith
    from lower upper show ?thesis by (simp add: eq)
  qed
qed

lemma binaryExponent_bounds:
  assumes "0 < x"
  shows "twoToThe (binaryExponent x) \<le> x \<and> x < twoToThe (binaryExponent x + 1)"
proof (cases "1 \<le> x")
  case True
  let ?n = "nat \<lfloor>x\<rfloor>"
  from True have fl: "1 \<le> \<lfloor>x\<rfloor>" by simp
  then have n: "0 < ?n" by simp
  from fl have nx: "int ?n = \<lfloor>x\<rfloor>" by simp
  from bitLength_bounds [OF n]
  have b: "2 ^ (bitLength ?n - 1) \<le> ?n" "?n < 2 ^ bitLength ?n" by simp_all
  from n have L: "0 < bitLength ?n" by (subst bitLength.simps) simp
  from b(1) have "int (2 ^ (bitLength ?n - 1)) \<le> int ?n" by (simp only: of_nat_le_iff)
  then have "int (2 ^ (bitLength ?n - 1)) \<le> \<lfloor>x\<rfloor>" by (simp only: nx)
  then have "(2::int) ^ (bitLength ?n - 1) \<le> \<lfloor>x\<rfloor>" by simp
  then have "of_int ((2::int) ^ (bitLength ?n - 1)) \<le> x"
    by (simp only: le_floor_iff)
  then have lower: "(2::rat) ^ (bitLength ?n - 1) \<le> x" by simp
  from b(2) have "int ?n < int (2 ^ bitLength ?n)" by (simp only: of_nat_less_iff)
  then have "\<lfloor>x\<rfloor> < int (2 ^ bitLength ?n)" by (simp only: nx)
  then have "\<lfloor>x\<rfloor> < (2::int) ^ bitLength ?n" by simp
  then have "x < of_int ((2::int) ^ bitLength ?n)"
    by (simp only: floor_less_iff)
  then have upper: "x < (2::rat) ^ bitLength ?n" by simp
  from L have e: "binaryExponent x = int (bitLength ?n - 1)"
    using True by (simp add: binaryExponent_def)
  from L have e1: "binaryExponent x + 1 = int (bitLength ?n)"
    using True by (simp add: binaryExponent_def)
  have "twoToThe (binaryExponent x) = 2 ^ (bitLength ?n - 1)"
    unfolding e by (simp add: twoToThe_def)
  moreover have "twoToThe (binaryExponent x + 1) = 2 ^ bitLength ?n"
    unfolding e1 by (simp add: twoToThe_def)
  ultimately show ?thesis
    using lower upper by simp
next
  case False
  with assms have inv: "1 < 1 / x" by simp
  let ?k = "\<lceil>1 / x\<rceil>"
  let ?n = "nat (?k - 1)"
  have two: "(of_int 2 :: rat) - 1 = 1" by simp
  from inv have "(of_int 2 :: rat) - 1 < 1 / x" by (simp only: two)
  then have k: "2 \<le> ?k" by (simp only: le_ceiling_iff)
  then have n: "0 < ?n" by simp
  from k have "0 \<le> ?k - 1" by linarith
  then have nk: "int ?n = ?k - 1" by (rule nat_0_le)
  from bitLength_bounds [OF n]
  have b: "2 ^ (bitLength ?n - 1) \<le> ?n" "?n < 2 ^ bitLength ?n" by simp_all
  from n have L: "0 < bitLength ?n" by (subst bitLength.simps) simp
  from b(1) have "int (2 ^ (bitLength ?n - 1)) \<le> int ?n" by (simp only: of_nat_le_iff)
  then have "int (2 ^ (bitLength ?n - 1)) \<le> ?k - 1" by (simp only: nk)
  then have "(2::int) ^ (bitLength ?n - 1) \<le> ?k - 1" by simp
  then have "(2::int) ^ (bitLength ?n - 1) < ?k" by simp
  then have "of_int ((2::int) ^ (bitLength ?n - 1)) < 1 / x"
    by (simp only: less_ceiling_iff)
  then have "(2::rat) ^ (bitLength ?n - 1) < 1 / x" by simp
  with assms have "(2::rat) ^ (bitLength ?n - 1) * x < 1"
    by (simp add: pos_less_divide_eq)
  then have upper: "x < 1 / 2 ^ (bitLength ?n - 1)"
    by (simp add: pos_less_divide_eq mult.commute)
  from b(2) have "int ?n < int (2 ^ bitLength ?n)" by (simp only: of_nat_less_iff)
  then have "?k - 1 < int (2 ^ bitLength ?n)" by (simp only: nk)
  then have "?k - 1 < (2::int) ^ bitLength ?n" by simp
  then have "?k \<le> (2::int) ^ bitLength ?n" by simp
  then have "1 / x \<le> of_int ((2::int) ^ bitLength ?n)"
    by (simp only: ceiling_le_iff)
  then have "1 / x \<le> (2::rat) ^ bitLength ?n" by simp
  with assms have "1 \<le> (2::rat) ^ bitLength ?n * x"
    by (simp add: pos_divide_le_eq)
  then have lower: "1 / 2 ^ bitLength ?n \<le> x"
    by (simp add: pos_divide_le_eq mult.commute)
  have e: "binaryExponent x = - int (bitLength ?n)"
    using False by (simp add: binaryExponent_def)
  have t0: "twoToThe (binaryExponent x) = 1 / 2 ^ bitLength ?n"
    unfolding e using L by (simp add: twoToThe_def)
  have t1: "twoToThe (binaryExponent x + 1) = 1 / 2 ^ (bitLength ?n - 1)"
  proof (cases "bitLength ?n = 1")
    case True
    then show ?thesis unfolding e by (simp add: twoToThe_def)
  next
    case False
    with L have "1 < bitLength ?n" by simp
    then have "nat (int (bitLength ?n) - 1) = bitLength ?n - 1"
      and "\<not> 0 \<le> - int (bitLength ?n) + 1" by simp_all
    then show ?thesis unfolding e by (simp add: twoToThe_def)
  qed
  show ?thesis
    using lower upper by (simp only: t0 t1 simp_thms)
qed

lemma roundHalfEven_error: "\<bar>of_int (roundHalfEven m) - m\<bar> \<le> 1 / 2"
proof -
  have "of_int \<lfloor>m\<rfloor> \<le> m" and "m < of_int \<lfloor>m\<rfloor> + 1" by linarith+
  then show ?thesis
    unfolding roundHalfEven_def Let_def by (simp add: abs_if) linarith
qed

lemma roundToDouble_error:
  assumes "x \<noteq> 0"
  shows "\<bar>roundToDouble x - x\<bar>
     \<le> twoToThe (max (binaryExponent \<bar>x\<bar> - 52) (- 1074)) / 2"
proof -
  define ulp where "ulp = twoToThe (max (binaryExponent \<bar>x\<bar> - 52) (- 1074))"
  define r :: rat where "r = of_int (roundHalfEven (\<bar>x\<bar> / ulp))"
  have pos: "0 < ulp" unfolding ulp_def by (rule twoToThe_pos)
  have "\<bar>r - \<bar>x\<bar> / ulp\<bar> \<le> 1 / 2"
    unfolding r_def by (rule roundHalfEven_error)
  then have "\<bar>r - \<bar>x\<bar> / ulp\<bar> * ulp \<le> 1 / 2 * ulp"
    using pos by (simp only: mult_le_cancel_right_pos)
  moreover have "\<bar>r - \<bar>x\<bar> / ulp\<bar> * ulp = \<bar>(r - \<bar>x\<bar> / ulp) * ulp\<bar>"
    using pos by (simp add: abs_mult)
  moreover have "(r - \<bar>x\<bar> / ulp) * ulp = r * ulp - \<bar>x\<bar>"
    using pos by (simp add: left_diff_distrib)
  ultimately have a: "\<bar>r * ulp - \<bar>x\<bar>\<bar> \<le> ulp / 2" by simp
  have rd: "roundToDouble x = sgn x * (r * ulp)"
    using assms unfolding r_def ulp_def by (simp add: roundToDouble_def Let_def)
  have "roundToDouble x - x = sgn x * (r * ulp - \<bar>x\<bar>)"
    unfolding rd by (simp add: right_diff_distrib sgn_if)
  then have "\<bar>roundToDouble x - x\<bar> = \<bar>r * ulp - \<bar>x\<bar>\<bar>"
    using assms by (simp add: abs_mult sgn_if)
  with a show ?thesis unfolding ulp_def by simp
qed

lemma bitLength_numeral: "bitLength (numeral k) = Suc (bitLength (numeral k div 2))"
  by (subst bitLength.simps) simp

lemma bitLength_0: "bitLength 0 = 0"
  by (subst bitLength.simps) simp

lemma bitLength_1: "bitLength 1 = 1"
  by (subst bitLength.simps) (simp add: bitLength_0)

lemma bitLength_Suc_0: "bitLength (Suc 0) = 1"
  by (subst bitLength.simps) (simp add: bitLength_0)

lemmas doubleExponent = roundToDouble_def binaryExponent_def twoToThe_def
  floor_rat_numeral_div ceiling_rat_numeral_div bitLength_numeral bitLength_0 bitLength_1 bitLength_Suc_0

lemmas doubleSignificand = roundHalfEven_def Let_def floor_rat_numeral_div

text \<open>The roundings of the examples below, each the double that JavaScript computes.\<close>

lemma double_1400: "roundToDouble 1400 = 1400"
  apply (simp add: doubleExponent)
  apply (simp add: doubleSignificand)
  done

lemma double_1100: "roundToDouble 1100 = 1100"
  apply (simp add: doubleExponent)
  apply (simp add: doubleSignificand)
  done

lemma times_1400_2:
  "js_times 1400 2 = 2800"
  apply (simp add: js_times_def doubleExponent)
  apply (simp add: doubleSignificand)
  done

lemma divide_2800_3:
  "js_divide 2800 3 = 8209686820727467 / 8796093022208"
  apply (simp add: js_divide_def doubleExponent)
  apply (simp add: doubleSignificand)
  done

lemma times_600_2:
  "js_times 600 2 = 1200"
  apply (simp add: js_times_def doubleExponent)
  apply (simp add: doubleSignificand)
  done

lemma divide_1200_3:
  "js_divide 1200 3 = 400"
  apply (simp add: js_divide_def doubleExponent)
  apply (simp add: doubleSignificand)
  done

lemma divide_544_11:
  "js_divide 544 11 = 3480054257513565 / 70368744177664"
  apply (simp add: js_divide_def doubleExponent)
  apply (simp add: doubleSignificand)
  done

lemma times_11_15:
  "js_times 11 15 = 165"
  apply (simp add: js_times_def doubleExponent)
  apply (simp add: doubleSignificand)
  done

lemma divide_14880_165:
  "js_divide 14880 165 = 1586495323278243 / 17592186044416"
  apply (simp add: js_divide_def doubleExponent)
  apply (simp add: doubleSignificand)
  done

lemma plus_15:
  "js_plus (3480054257513565 / 70368744177664) (1586495323278243 / 17592186044416)
     = 1228254443828317 / 8796093022208"
  apply (simp add: js_plus_def doubleExponent)
  apply (simp add: doubleSignificand)
  done

lemma divide_15_600:
  "js_divide (1228254443828317 / 8796093022208) 600
     = 8384883669867977 / 36028797018963968"
  apply (simp add: js_divide_def doubleExponent)
  apply (simp add: doubleSignificand)
  done

lemma times_15_1100:
  "js_times (8384883669867977 / 36028797018963968) 1100
     = 9007199254740991 / 35184372088832"
  apply (simp add: js_times_def doubleExponent)
  apply (simp add: doubleSignificand)
  done

lemma rate_4_1400: "js_divide (js_times 1400 2) 3 = 8209686820727467 / 8796093022208"
  by (simp only: times_1400_2 divide_2800_3)

lemma rate_4_600: "js_divide (js_times 600 2) 3 = 400"
  by (simp only: times_600_2 divide_1200_3)

lemma rate_15_1100:
  "js_times (js_divide (js_plus (js_divide 544 11) (js_divide 14880 (js_times 11 15))) 600)
     1100 = 9007199254740991 / 35184372088832"
  by (simp only: times_11_15 divide_544_11 divide_14880_165 plus_15 divide_15_600
      times_15_1100)

subsection \<open>The bandwidth formula\<close>

lemma js_times_nonneg: "0 \<le> x \<Longrightarrow> 0 \<le> y \<Longrightarrow> 0 \<le> js_times x y"
  by (simp add: js_times_def roundToDouble_nonneg)

lemma js_divide_nonneg: "0 \<le> x \<Longrightarrow> 0 \<le> y \<Longrightarrow> 0 \<le> js_divide x y"
  by (simp add: js_divide_def roundToDouble_nonneg)

lemma js_plus_nonneg: "0 \<le> x \<Longrightarrow> 0 \<le> y \<Longrightarrow> 0 \<le> js_plus x y"
  by (simp add: js_plus_def roundToDouble_nonneg)

lemma nominalRate_nonneg:
  assumes "0 \<le> idealMaxBandwidthKbps this"
  shows "0 \<le> nominalRate this"
proof -
  have "0 \<le> js_divide (js_times (idealMaxBandwidthKbps this) 2) 3"
    using assms by (intro js_divide_nonneg js_times_nonneg) simp_all
  moreover have "0 \<le> js_times
             (js_divide
                (js_plus (js_divide 544 11)
                   (js_divide 14880 (js_times 11 (of_nat (numParticipants this)))))
                600)
             (idealMaxBandwidthKbps this)"
    using assms by (intro js_divide_nonneg js_times_nonneg js_plus_nonneg) simp_all
  ultimately show ?thesis
    using assms by (simp add: nominalRate_def)
qed

lemma maxBandwidthKbps_trunc: "maxBandwidthKbps this = Math_trunc (nominalRate this)"
  by (simp add: maxBandwidthKbps_def nominalRate_def Let_def)

lemma maxBandwidthKbps_default_4:
  "idealMaxBandwidthKbps this = 1400 \<Longrightarrow> \<not> hasBandwidthPriority this \<Longrightarrow>
   numParticipants this = 4 \<Longrightarrow> maxBandwidthKbps this = 933"
  by (simp add: maxBandwidthKbps_def rate_4_1400 Math_trunc_def floor_rat_numeral_div)

text \<open>
  Claim C1 says that \<^verbatim>\<open>maxBandwidthKbps()\<close> returns the floor of the ideal bandwidth
  under bandwidth priority and otherwise the ideal bandwidth itself for at most two
  participants, the floor of two thirds of it for three or four, and the floor of
  \<open>((544/11 + 14880/(11 n)) / 600)\<close> times it for more. The code truncates in all four
  cases, the first of the non-priority ones included: with an ideal bandwidth of 1400.5
  and one participant it returns 1400, not 1400.5.
\<close>

theorem maxBandwidthKbps_counterexample:
  "maxBandwidthKbps
     ((constructor ''me'' True)\<lparr>numParticipants := 1, idealMaxBandwidthKbps := 2801 / 2\<rparr>)
   = 1400
   \<and> \<not> hasBandwidthPriority
         ((constructor ''me'' True)\<lparr>numParticipants := 1, idealMaxBandwidthKbps := 2801 / 2\<rparr>)
   \<and> maxBandwidthKbps
       ((constructor ''me'' True)\<lparr>numParticipants := 1, idealMaxBandwidthKbps := 2801 / 2\<rparr>)
     \<noteq> idealMaxBandwidthKbps
         ((constructor ''me'' True)\<lparr>numParticipants := 1, idealMaxBandwidthKbps := 2801 / 2\<rparr>)"
  by (simp add: maxBandwidthKbps_def Math_trunc_def constructor_def floor_rat_numeral_div)

text \<open>
  Claim C1, amended: in every policy state whose ideal bandwidth is a double that can be
  doubled without overflow, \<^verbatim>\<open>maxBandwidthKbps()\<close> is the rate of the four cases,
  computed in double arithmetic with every operation rounded, with its fractional part
  dropped (\<^verbatim>\<open>Math.trunc\<close>); for an ideal bandwidth that is not negative this is the
  floor of that rounded rate, so for at most two participants the floor of the ideal
  bandwidth. At the default 1400 it is 1400 for one or two participants and 933 for
  four.
\<close>

theorem maxBandwidthKbps_truncated_rate:
  "withinDoubleRange this \<longrightarrow>
     maxBandwidthKbps this = Math_trunc (nominalRate this)
     \<and> (0 \<le> idealMaxBandwidthKbps this \<longrightarrow>
          maxBandwidthKbps this = of_int \<lfloor>nominalRate this\<rfloor>)
     \<and> (idealMaxBandwidthKbps this = 1400 \<and> \<not> hasBandwidthPriority this \<longrightarrow>
          (numParticipants this \<in> {1, 2} \<longrightarrow> maxBandwidthKbps this = 1400)
          \<and> (numParticipants this = 4 \<longrightarrow> maxBandwidthKbps this = 933))"
proof (intro conjI impI)
  show "maxBandwidthKbps this = Math_trunc (nominalRate this)"
    by (rule maxBandwidthKbps_trunc)
next
  assume "0 \<le> idealMaxBandwidthKbps this"
  then have "0 \<le> nominalRate this" by (rule nominalRate_nonneg)
  then show "maxBandwidthKbps this = of_int \<lfloor>nominalRate this\<rfloor>"
    by (simp add: maxBandwidthKbps_trunc Math_trunc_nonneg)
next
  assume "idealMaxBandwidthKbps this = 1400 \<and> \<not> hasBandwidthPriority this"
    and "numParticipants this \<in> {1, 2}"
  then show "maxBandwidthKbps this = 1400"
    by (auto simp add: maxBandwidthKbps_def Math_trunc_def)
next
  assume "idealMaxBandwidthKbps this = 1400 \<and> \<not> hasBandwidthPriority this"
    and "numParticipants this = 4"
  then show "maxBandwidthKbps this = 933"
    by (simp add: maxBandwidthKbps_default_4)
qed

text \<open>
  At the default ideal bandwidth the values are those of the claim; with fifteen
  participants and an ideal bandwidth of 1100 the rounded rate lies just below 256, the
  value of the expression without rounding, and the result is 255.
\<close>

theorem maxBandwidthKbps_truncated_rate_witness:
  "withinDoubleRange ((constructor ''me'' True)\<lparr>numParticipants := 4\<rparr>)
   \<and> maxBandwidthKbps ((constructor ''me'' True)\<lparr>numParticipants := 4\<rparr>) = 933
   \<and> maxBandwidthKbps ((constructor ''me'' True)\<lparr>numParticipants := 2\<rparr>) = 1400
   \<and> withinDoubleRange
        ((constructor ''me'' True)\<lparr>numParticipants := 15, idealMaxBandwidthKbps := 1100\<rparr>)
   \<and> maxBandwidthKbps
        ((constructor ''me'' True)\<lparr>numParticipants := 15, idealMaxBandwidthKbps := 1100\<rparr>)
       = 255
   \<and> exactRate
        ((constructor ''me'' True)\<lparr>numParticipants := 15, idealMaxBandwidthKbps := 1100\<rparr>)
       = 256"
proof -
  let ?four = "(constructor ''me'' True)\<lparr>numParticipants := 4\<rparr>"
  let ?two = "(constructor ''me'' True)\<lparr>numParticipants := 2\<rparr>"
  let ?fifteen =
    "(constructor ''me'' True)\<lparr>numParticipants := 15, idealMaxBandwidthKbps := 1100\<rparr>"
  have r4: "withinDoubleRange ?four" and r2: "withinDoubleRange ?two"
    by (simp_all add: withinDoubleRange_def constructor_def double_1400)
  have r15: "withinDoubleRange ?fifteen"
    by (simp add: withinDoubleRange_def constructor_def double_1100)
  have f4: "idealMaxBandwidthKbps ?four = 1400 \<and> \<not> hasBandwidthPriority ?four"
    and f2: "idealMaxBandwidthKbps ?two = 1400 \<and> \<not> hasBandwidthPriority ?two"
    by (simp_all add: constructor_def)
  have n15: "nominalRate ?fifteen = 9007199254740991 / 35184372088832"
    by (simp add: nominalRate_def constructor_def rate_15_1100)
  from maxBandwidthKbps_truncated_rate [of ?four] r4 f4
  have 1: "maxBandwidthKbps ?four = 933" by simp
  from maxBandwidthKbps_truncated_rate [of ?two] r2 f2
  have 2: "maxBandwidthKbps ?two = 1400" by simp
  from maxBandwidthKbps_truncated_rate [of ?fifteen] r15
  have "maxBandwidthKbps ?fifteen = of_int \<lfloor>nominalRate ?fifteen\<rfloor>"
    by (simp add: constructor_def)
  then have 3: "maxBandwidthKbps ?fifteen = 255"
    by (simp add: n15 floor_rat_numeral_div)
  have 4: "exactRate ?fifteen = 256"
    by (simp add: exactRate_def constructor_def)
  from r4 r15 1 2 3 4 show ?thesis by simp
qed

subsection \<open>Sequences of calls\<close>

lemma calls_Nil: "calls [] this = this"
  by (simp add: calls_def)

lemma calls_snoc: "calls (ops @ [op]) this = call op (calls ops this)"
  by (simp add: calls_def)

lemma updateTransceiverController_flag:
  "updateTransceiverController this = Some this1 \<Longrightarrow>
   wantsResubscribeForVideoCodecPreferenceChange this1
     = wantsResubscribeForVideoCodecPreferenceChange this"
  by (auto simp add: updateTransceiverController_def Let_def
      split: option.splits bool.splits)

lemma updateTransceiverController_parametersInEffect:
  "updateTransceiverController this = Some this1 \<Longrightarrow>
   parametersInEffect this1 = parametersInEffect this"
  by (auto simp add: updateTransceiverController_def Let_def
      split: option.splits bool.splits)

lemma updateTransceiverController_preferences:
  "updateTransceiverController this = Some this1 \<Longrightarrow>
   videoCodecPreferences this1 = videoCodecPreferences this"
  by (auto simp add: updateTransceiverController_def Let_def
      split: option.splits bool.splits)

lemma call_flag:
  "wantsResubscribeForVideoCodecPreferenceChange (call op this) =
     (case op of SetVideoCodecPreferences preferences \<Rightarrow> True
      | ChooseVideoCodecPreferences \<Rightarrow> False
      | _ \<Rightarrow> wantsResubscribeForVideoCodecPreferenceChange this)"
  by (cases op)
    (auto simp add: updateIndex_def Let_def chooseCaptureAndEncodeParameters_def
      setIdealMaxBandwidthKbps_def setHasBandwidthPriority_def setTransceiverController_def
      setVideoCodecPreferences_def chooseVideoCodecPreferences_def
      updateTransceiverController_flag split: option.splits)

lemma call_parametersInEffect:
  "op \<noteq> ChooseCaptureAndEncodeParameters \<Longrightarrow>
   parametersInEffect (call op this) = parametersInEffect this"
  by (cases op)
    (auto simp add: updateIndex_def Let_def
      setIdealMaxBandwidthKbps_def setHasBandwidthPriority_def setTransceiverController_def
      setVideoCodecPreferences_def chooseVideoCodecPreferences_def
      updateTransceiverController_parametersInEffect split: option.splits)

lemma call_preferences:
  "\<forall>l. op \<noteq> SetVideoCodecPreferences l \<Longrightarrow>
   videoCodecPreferences (call op this) = videoCodecPreferences this"
  by (cases op)
    (auto simp add: updateIndex_def Let_def chooseCaptureAndEncodeParameters_def
      setIdealMaxBandwidthKbps_def setHasBandwidthPriority_def setTransceiverController_def
      chooseVideoCodecPreferences_def
      updateTransceiverController_preferences split: option.splits)

lemma calls_parametersInEffect:
  "ChooseCaptureAndEncodeParameters \<notin> set ops \<Longrightarrow>
   parametersInEffect (calls ops this) = parametersInEffect this"
proof (induction ops rule: rev_induct)
  case Nil
  show ?case by (simp add: calls_Nil)
next
  case (snoc op ops)
  then have "op \<noteq> ChooseCaptureAndEncodeParameters"
    and "ChooseCaptureAndEncodeParameters \<notin> set ops" by auto
  with snoc.IH show ?case by (simp add: calls_snoc call_parametersInEffect)
qed

lemma calls_preferences:
  "\<forall>l. SetVideoCodecPreferences l \<notin> set ops \<Longrightarrow>
   videoCodecPreferences (calls ops this) = videoCodecPreferences this"
proof (induction ops rule: rev_induct)
  case Nil
  show ?case by (simp add: calls_Nil)
next
  case (snoc op ops)
  then have "\<forall>l. op \<noteq> SetVideoCodecPreferences l"
    and "\<forall>l. SetVideoCodecPreferences l \<notin> set ops" by auto
  with snoc.IH show ?case by (simp add: calls_snoc call_preferences)
qed

lemma pending_Nil: "\<not> codecPreferenceChangePending []"
  by (simp add: codecPreferenceChangePending_def)

lemma pending_snoc:
  "codecPreferenceChangePending (ops @ [op]) =
     (case op of SetVideoCodecPreferences preferences \<Rightarrow> True
      | ChooseVideoCodecPreferences \<Rightarrow> False
      | _ \<Rightarrow> codecPreferenceChangePending ops)"
proof -
  have set: "codecPreferenceChangePending (ops @ [SetVideoCodecPreferences l])" for l
    unfolding codecPreferenceChangePending_def
    by (rule exI [of _ ops], rule exI [of _ l], rule exI [of _ "[]"]) simp
  have choose: "\<not> codecPreferenceChangePending (ops @ [ChooseVideoCodecPreferences])"
  proof
    assume "codecPreferenceChangePending (ops @ [ChooseVideoCodecPreferences])"
    then obtain b l a
      where eq: "ops @ [ChooseVideoCodecPreferences] = b @ SetVideoCodecPreferences l # a"
        and no: "ChooseVideoCodecPreferences \<notin> set a"
      unfolding codecPreferenceChangePending_def by blast
    from eq have "last (b @ SetVideoCodecPreferences l # a) = ChooseVideoCodecPreferences"
      by (metis last_snoc)
    with no show False by (cases a rule: rev_cases) auto
  qed
  have other: "codecPreferenceChangePending (ops @ [x]) = codecPreferenceChangePending ops"
    if ns: "\<forall>l. x \<noteq> SetVideoCodecPreferences l"
      and nc: "x \<noteq> ChooseVideoCodecPreferences" for x
  proof
    assume "codecPreferenceChangePending (ops @ [x])"
    then obtain b l a where eq: "ops @ [x] = b @ SetVideoCodecPreferences l # a"
      and no: "ChooseVideoCodecPreferences \<notin> set a"
      unfolding codecPreferenceChangePending_def by blast
    show "codecPreferenceChangePending ops"
    proof (cases a rule: rev_cases)
      case Nil
      with eq ns show ?thesis by auto
    next
      case (snoc a' y)
      with eq have "ops = b @ SetVideoCodecPreferences l # a'" by simp
      moreover from snoc no have "ChooseVideoCodecPreferences \<notin> set a'" by simp
      ultimately show ?thesis unfolding codecPreferenceChangePending_def by blast
    qed
  next
    assume "codecPreferenceChangePending ops"
    then obtain b l a where eq: "ops = b @ SetVideoCodecPreferences l # a"
      and no: "ChooseVideoCodecPreferences \<notin> set a"
      unfolding codecPreferenceChangePending_def by blast
    from eq have "ops @ [x] = b @ SetVideoCodecPreferences l # (a @ [x])" by simp
    moreover from no nc have "ChooseVideoCodecPreferences \<notin> set (a @ [x])" by auto
    ultimately show "codecPreferenceChangePending (ops @ [x])"
      unfolding codecPreferenceChangePending_def by blast
  qed
  show ?thesis
    by (cases op) (simp_all add: set choose other)
qed

lemma calls_flag:
  "wantsResubscribeForVideoCodecPreferenceChange (calls ops this) =
     (codecPreferenceChangePending ops
      \<or> (wantsResubscribeForVideoCodecPreferenceChange this
          \<and> ChooseVideoCodecPreferences \<notin> set ops))"
proof (induction ops rule: rev_induct)
  case Nil
  show ?case by (simp add: calls_Nil pending_Nil)
next
  case (snoc op ops)
  have "wantsResubscribeForVideoCodecPreferenceChange (calls (ops @ [op]) this) =
     (case op of SetVideoCodecPreferences preferences \<Rightarrow> True
      | ChooseVideoCodecPreferences \<Rightarrow> False
      | _ \<Rightarrow> wantsResubscribeForVideoCodecPreferenceChange (calls ops this))"
    by (simp only: calls_snoc call_flag)
  then show ?case
    using snoc.IH by (cases op) (simp_all add: pending_snoc)
qed

subsection \<open>Resubscription\<close>

text \<open>
  Claim C4: in every policy state \<^verbatim>\<open>wantsResubscribe()\<close> is true exactly when
  \<^verbatim>\<open>optimalParameters\<close> differs from \<^verbatim>\<open>parametersInEffect\<close> or the pending-change flag
  is set; and in the state a new policy reaches by any list of calls, the flag is set
  exactly when \<^verbatim>\<open>setVideoCodecPreferences\<close> was called and
  \<^verbatim>\<open>chooseVideoCodecPreferences\<close> has not been called since.
\<close>

theorem wantsResubscribe_iff:
  "wantsResubscribe this =
     (optimalParameters this \<noteq> parametersInEffect this
      \<or> wantsResubscribeForVideoCodecPreferenceChange this)
   \<and> wantsResubscribeForVideoCodecPreferenceChange (calls ops (constructor selfId scaleRes))
       = codecPreferenceChangePending ops
   \<and> wantsResubscribe (calls ops (constructor selfId scaleRes)) =
       (optimalParameters (calls ops (constructor selfId scaleRes))
          \<noteq> parametersInEffect (calls ops (constructor selfId scaleRes))
        \<or> codecPreferenceChangePending ops)"
proof -
  have "\<not> wantsResubscribeForVideoCodecPreferenceChange (constructor selfId scaleRes)"
    by (simp add: constructor_def)
  then have "wantsResubscribeForVideoCodecPreferenceChange
      (calls ops (constructor selfId scaleRes)) = codecPreferenceChangePending ops"
    by (simp add: calls_flag)
  then show ?thesis
    by (auto simp add: wantsResubscribe_def equal_def)
qed

theorem wantsResubscribe_iff_witness:
  "wantsResubscribe (calls [SetVideoCodecPreferences [vp8]] (constructor ''me'' True))
   \<and> codecPreferenceChangePending [SetVideoCodecPreferences [vp8]]
   \<and> \<not> wantsResubscribe
         (calls [SetVideoCodecPreferences [vp8], ChooseVideoCodecPreferences]
            (constructor ''me'' True))
   \<and> \<not> codecPreferenceChangePending
         [SetVideoCodecPreferences [vp8], ChooseVideoCodecPreferences]"
  using wantsResubscribe_iff [of "constructor ''me'' True"
      "[SetVideoCodecPreferences [vp8]]" "''me''" True, THEN conjunct2]
    wantsResubscribe_iff [of "constructor ''me'' True"
      "[SetVideoCodecPreferences [vp8], ChooseVideoCodecPreferences]" "''me''" True,
      THEN conjunct2]
  by (simp add: calls_def setVideoCodecPreferences_def chooseVideoCodecPreferences_def
      constructor_def)

subsection \<open>Resolution scale\<close>




subsection \<open>The index update\<close>

lemma maxBandwidthKbps_optimalParameters_update:
  "maxBandwidthKbps (this\<lparr>optimalParameters := p\<rparr>) = maxBandwidthKbps this"
  by (simp add: maxBandwidthKbps_def)

lemma calculateEncodingParameters_optimalParameters_update:
  "calculateEncodingParameters (this\<lparr>optimalParameters := p\<rparr>) setting
     = calculateEncodingParameters this setting"
  by (auto simp add: calculateEncodingParameters_def Let_def
      maxBandwidthKbps_optimalParameters_update split: option.splits)

lemma getStreamCaptureSetting_numParticipants_update:
  "getStreamCaptureSetting (this\<lparr>numParticipants := n\<rparr>) = getStreamCaptureSetting this"
  by (simp add: getStreamCaptureSetting_def)

lemma getStreamCaptureSetting_no_controller:
  "transceiverController this = None \<Longrightarrow> getStreamCaptureSetting this = None"
  by (simp add: getStreamCaptureSetting_def)

lemma calculateEncodingParameters_scale_set:
  "\<exists>sc. scaleResolutionDownBy (calculateEncodingParameters this setting) = Some sc"
  by (simp add: calculateEncodingParameters_def Let_def)

lemma updateIndex_unfold:
  "updateIndex videoIndex this =
     (let this1 = this\<lparr>numParticipants :=
             numberOfVideoPublishingParticipantsExcludingSelf videoIndex (selfAttendeeId this)
             + (if transceiverController this = None \<or> localCaptureActive this then 1 else 0)\<rparr>
      in this1\<lparr>optimalParameters :=
           \<lparr>cameraWidth = (if 4 < numParticipants this1 then 320 else 640),
            cameraHeight = (if 4 < numParticipants this1 then 192 else 384),
            cameraFrameRate = 15,
            maxEncodeBitrateKbps = maxBandwidthKbps this1,
            isSimulcast = False,
            scaleDownBy =
              (case getStreamCaptureSetting this of None \<Rightarrow> 1
               | Some settings \<Rightarrow>
                   the (scaleResolutionDownBy (calculateEncodingParameters this1 settings)))\<rparr>\<rparr>)"
proof (cases "transceiverController this")
  case None
  then show ?thesis
    by (simp add: updateIndex_def Let_def localCaptureActive_def captureWidth_def
        captureHeight_def captureFrameRate_def getStreamCaptureSetting_no_controller)
next
  case (Some tc)
  show ?thesis
  proof (cases "getStreamCaptureSetting this")
    case None
    with Some show ?thesis
      by (simp add: updateIndex_def Let_def localCaptureActive_def captureWidth_def
          captureHeight_def captureFrameRate_def getStreamCaptureSetting_numParticipants_update)
  next
    case (Some settings)
    obtain sc where
      "scaleResolutionDownBy
         (calculateEncodingParameters
            (this\<lparr>numParticipants :=
               numberOfVideoPublishingParticipantsExcludingSelf videoIndex (selfAttendeeId this)
               + (if hasVideoInput tc then 1 else 0)\<rparr>) settings) = Some sc"
      using calculateEncodingParameters_scale_set by blast
    with Some \<open>transceiverController this = Some tc\<close> show ?thesis
      by (simp add: updateIndex_def Let_def localCaptureActive_def captureWidth_def
          captureHeight_def captureFrameRate_def getStreamCaptureSetting_numParticipants_update)
  qed
qed

text \<open>
  Claim C6 says that after \<^verbatim>\<open>updateIndex(videoIndex)\<close> the participant count is the
  index's count plus 1 if local capture is active and plus 0 otherwise. A policy that has
  no transceiver controller has no active capture, and the code still adds 1: a new
  policy given an index of three others counts four.
\<close>

theorem updateIndex_counterexample:
  "\<not> localCaptureActive (constructor ''me'' True)
   \<and> numberOfVideoPublishingParticipantsExcludingSelf threeOthers ''me'' = 3
   \<and> numParticipants (updateIndex threeOthers (constructor ''me'' True)) = 4
   \<and> numParticipants (updateIndex threeOthers (constructor ''me'' True))
     \<noteq> numberOfVideoPublishingParticipantsExcludingSelf threeOthers ''me''
         + (if localCaptureActive (constructor ''me'' True) then 1 else 0)"
  by (simp add: updateIndex_def Let_def constructor_def threeOthers_def localCaptureActive_def)

text \<open>
  Claim C6, amended: after \<^verbatim>\<open>updateIndex(videoIndex)\<close> the participant count is the
  index's count of publishing participants other than self, plus 1 if no transceiver
  controller is set or the controller reports a video input, plus 0 if a controller is
  set and reports none; and \<^verbatim>\<open>optimalParameters\<close> is recomputed from that new count:
  capture width and height, frame rate 15, the maximum bandwidth, and the scale that the
  captured track settings give (1 without them).
\<close>

theorem updateIndex_recomputes:
  "numParticipants (updateIndex videoIndex this) =
     numberOfVideoPublishingParticipantsExcludingSelf videoIndex (selfAttendeeId this)
     + (if transceiverController this = None \<or> localCaptureActive this then 1 else 0)
   \<and> optimalParameters (updateIndex videoIndex this) =
       \<lparr>cameraWidth = (if 4 < numParticipants (updateIndex videoIndex this) then 320 else 640),
        cameraHeight = (if 4 < numParticipants (updateIndex videoIndex this) then 192 else 384),
        cameraFrameRate = 15,
        maxEncodeBitrateKbps = maxBandwidthKbps (updateIndex videoIndex this),
        isSimulcast = False,
        scaleDownBy =
          (case getStreamCaptureSetting this of None \<Rightarrow> 1
           | Some settings \<Rightarrow>
               the (scaleResolutionDownBy
                      (calculateEncodingParameters (updateIndex videoIndex this) settings)))\<rparr>"
  by (simp add: updateIndex_unfold Let_def maxBandwidthKbps_optimalParameters_update
      calculateEncodingParameters_optimalParameters_update cong: option.case_cong)

lemma cameraPolicy_settings:
  "getStreamCaptureSetting cameraPolicy = Some \<lparr>height = Some 720, width = Some 1280\<rparr>"
  by (simp add: cameraPolicy_def setTransceiverController_def cameraController_def
      getStreamCaptureSetting_def)

theorem updateIndex_recomputes_witness:
  "numParticipants (updateIndex threeOthers cameraPolicy) = 4
   \<and> optimalParameters (updateIndex threeOthers cameraPolicy) =
       \<lparr>cameraWidth = 640, cameraHeight = 384, cameraFrameRate = 15,
        maxEncodeBitrateKbps = 933, isSimulcast = False, scaleDownBy = 4 / 3\<rparr>"
proof -
  have n: "numParticipants (updateIndex threeOthers cameraPolicy) = 4"
    using updateIndex_recomputes [of threeOthers cameraPolicy, THEN conjunct1]
    by (simp add: threeOthers_def cameraPolicy_def setTransceiverController_def
        cameraController_def localCaptureActive_def)
  have i: "idealMaxBandwidthKbps (updateIndex threeOthers cameraPolicy) = 1400"
    and p: "\<not> hasBandwidthPriority (updateIndex threeOthers cameraPolicy)"
    and s: "scaleResolution (updateIndex threeOthers cameraPolicy)"
    by (simp_all add: updateIndex_def Let_def cameraPolicy_def setTransceiverController_def
        constructor_def)
  have b: "maxBandwidthKbps (updateIndex threeOthers cameraPolicy) = 933"
    using i p n by (rule maxBandwidthKbps_default_4)
  have e: "scaleResolutionDownBy
       (calculateEncodingParameters (updateIndex threeOthers cameraPolicy)
          \<lparr>height = Some 720, width = Some 1280\<rparr>) = Some (4 / 3)"
    by (simp add: calculateEncodingParameters_def n p s targetHeightArray_def)
  show ?thesis
    using updateIndex_recomputes [of threeOthers cameraPolicy]
    by (simp add: n b e cameraPolicy_settings)
qed

subsection \<open>The committed parameters\<close>

text \<open>
  Claim C7: \<^verbatim>\<open>chooseCaptureAndEncodeParameters()\<close> sets \<^verbatim>\<open>parametersInEffect\<close> to
  \<^verbatim>\<open>optimalParameters\<close> and returns a copy of it; every other call of the policy, and
  so every list of calls without it, leaves \<^verbatim>\<open>parametersInEffect\<close> as it was.
\<close>

theorem parametersInEffect_commit_only:
  "chooseCaptureAndEncodeParameters this
     = (optimalParameters this, this\<lparr>parametersInEffect := optimalParameters this\<rparr>)
   \<and> (op \<noteq> ChooseCaptureAndEncodeParameters \<longrightarrow>
        parametersInEffect (call op this) = parametersInEffect this)
   \<and> (\<forall>this1. updateTransceiverController this = Some this1 \<longrightarrow>
        parametersInEffect this1 = parametersInEffect this)
   \<and> (ChooseCaptureAndEncodeParameters \<notin> set ops \<longrightarrow>
        parametersInEffect (calls ops this) = parametersInEffect this)"
  by (simp add: chooseCaptureAndEncodeParameters_def clone_def Let_def
      call_parametersInEffect calls_parametersInEffect
      updateTransceiverController_parametersInEffect)

theorem parametersInEffect_commit_only_witness:
  "parametersInEffect
     (calls [UpdateIndex threeOthers, SetIdealMaxBandwidthKbps 600, SetHasBandwidthPriority True,
             SetVideoCodecPreferences [vp8], ChooseVideoCodecPreferences,
             UpdateTransceiverController, WantsResubscribe, MaxBandwidthKbps]
        cameraPolicy)
   = parametersInEffect cameraPolicy
   \<and> parametersInEffect (call (UpdateIndex threeOthers) cameraPolicy)
     = parametersInEffect cameraPolicy"
  using parametersInEffect_commit_only [of cameraPolicy "UpdateIndex threeOthers"
      "[UpdateIndex threeOthers, SetIdealMaxBandwidthKbps 600, SetHasBandwidthPriority True,
        SetVideoCodecPreferences [vp8], ChooseVideoCodecPreferences,
        UpdateTransceiverController, WantsResubscribe, MaxBandwidthKbps]"]
  by simp

subsection \<open>The push to the transceiver\<close>

lemma getStreamCaptureSetting_SomeD:
  assumes "getStreamCaptureSetting this = Some settings"
  obtains tc tr sndr where "transceiverController this = Some tc"
    and "localVideoTransceiver tc = Some tr" and "sender tr = Some sndr"
  using assms by (auto simp add: getStreamCaptureSetting_def split: option.splits)

lemma shouldUpdateEndcodingParameters_live:
  assumes "getStreamCaptureSetting this = Some settings"
  shows "shouldUpdateEndcodingParameters this encoding = Some (differsFromLive this encoding)"
proof -
  from assms obtain tc tr sndr where "transceiverController this = Some tc"
    and "localVideoTransceiver tc = Some tr" and "sender tr = Some sndr"
    by (rule getStreamCaptureSetting_SomeD)
  then show ?thesis
    by (simp add: shouldUpdateEndcodingParameters_def differsFromLive_def liveSendEncoding_def)
qed

lemma updateTransceiverController_cases:
  "updateTransceiverController this =
     (case getStreamCaptureSetting this of None \<Rightarrow> Some this
      | Some settings \<Rightarrow>
          Some (if differsFromLive this (calculateEncodingParameters this settings)
                then this\<lparr>encodingParamMap :=
                            (encodingParamMap this)
                              (encodingMapKey \<mapsto> calculateEncodingParameters this settings),
                          transceiverController :=
                            map_option
                              (\<lambda>tc. tc\<lparr>setEncodingParametersCalls :=
                                 setEncodingParametersCalls tc
                                 @ [(encodingParamMap this)
                                      (encodingMapKey \<mapsto>
                                         calculateEncodingParameters this settings)]\<rparr>)
                              (transceiverController this)\<rparr>
                else this))"
proof (cases "getStreamCaptureSetting this")
  case None
  then show ?thesis by (simp add: updateTransceiverController_def)
next
  case (Some settings)
  then show ?thesis
    by (simp add: updateTransceiverController_def Let_def
        shouldUpdateEndcodingParameters_live [OF Some])
qed

lemma cameraPolicy_encoding:
  "calculateEncodingParameters cameraPolicy \<lparr>height = Some 720, width = Some 1280\<rparr>
     = \<lparr>scaleResolutionDownBy = Some 1, maxBitrate = Some 1400000\<rparr>"
  by (simp add: cameraPolicy_def setTransceiverController_def constructor_def
      calculateEncodingParameters_def maxBandwidthKbps_def Math_trunc_def)

lemma cameraPolicy_live:
  "liveSendEncoding cameraPolicy = Some \<lparr>scaleResolutionDownBy = None, maxBitrate = None\<rparr>"
  by (simp add: cameraPolicy_def setTransceiverController_def cameraController_def
      liveSendEncoding_def transceiverEncoding_def)

lemma cameraPolicy_first_push:
  "updateTransceiverController cameraPolicy =
     Some (cameraPolicy
       \<lparr>encodingParamMap :=
          [encodingMapKey \<mapsto> \<lparr>scaleResolutionDownBy = Some 1, maxBitrate = Some 1400000\<rparr>],
        transceiverController := Some (cameraController
          \<lparr>setEncodingParametersCalls :=
             [[encodingMapKey \<mapsto>
                 \<lparr>scaleResolutionDownBy = Some 1, maxBitrate = Some 1400000\<rparr>]]\<rparr>)\<rparr>)"
proof -
  have "differsFromLive cameraPolicy \<lparr>scaleResolutionDownBy = Some 1, maxBitrate = Some 1400000\<rparr>"
    by (simp add: differsFromLive_def cameraPolicy_live)
  moreover have "encodingParamMap cameraPolicy =
      [encodingMapKey \<mapsto> \<lparr>scaleResolutionDownBy = None, maxBitrate = Some 0\<rparr>]"
    and "transceiverController cameraPolicy = Some cameraController"
    by (simp_all add: cameraPolicy_def setTransceiverController_def constructor_def)
  moreover have "setEncodingParametersCalls cameraController = []"
    by (simp add: cameraController_def)
  ultimately show ?thesis
    by (simp add: updateTransceiverController_cases cameraPolicy_settings cameraPolicy_encoding)
qed

lemma cameraPolicyPushedOnce_eq:
  "cameraPolicyPushedOnce =
     cameraPolicy
       \<lparr>encodingParamMap :=
          [encodingMapKey \<mapsto> \<lparr>scaleResolutionDownBy = Some 1, maxBitrate = Some 1400000\<rparr>],
        transceiverController := Some (cameraController
          \<lparr>setEncodingParametersCalls :=
             [[encodingMapKey \<mapsto>
                 \<lparr>scaleResolutionDownBy = Some 1, maxBitrate = Some 1400000\<rparr>]]\<rparr>)\<rparr>"
  by (simp add: cameraPolicyPushedOnce_def cameraPolicy_first_push)

lemma cameraPolicyPushedOnce_settings:
  "getStreamCaptureSetting cameraPolicyPushedOnce
     = Some \<lparr>height = Some 720, width = Some 1280\<rparr>"
  by (simp add: cameraPolicyPushedOnce_eq cameraController_def getStreamCaptureSetting_def)

lemma cameraPolicyPushedOnce_encoding:
  "calculateEncodingParameters cameraPolicyPushedOnce \<lparr>height = Some 720, width = Some 1280\<rparr>
     = \<lparr>scaleResolutionDownBy = Some 1, maxBitrate = Some 1400000\<rparr>"
  by (simp add: cameraPolicyPushedOnce_eq cameraPolicy_def setTransceiverController_def
      constructor_def calculateEncodingParameters_def maxBandwidthKbps_def Math_trunc_def)

lemma cameraPolicyPushedOnce_live:
  "liveSendEncoding cameraPolicyPushedOnce
     = Some \<lparr>scaleResolutionDownBy = None, maxBitrate = None\<rparr>"
  by (simp add: cameraPolicyPushedOnce_eq cameraController_def
      liveSendEncoding_def transceiverEncoding_def)

lemma cameraPolicyPushedOnce_pushes:
  "pushes cameraPolicyPushedOnce =
     [[encodingMapKey \<mapsto> \<lparr>scaleResolutionDownBy = Some 1, maxBitrate = Some 1400000\<rparr>]]"
  by (simp add: cameraPolicyPushedOnce_eq pushes_def)

text \<open>
  Claim C8 says that \<^verbatim>\<open>updateTransceiverController()\<close> pushes the recomputed encoding
  only if it differs from the last pushed value, and does not push when the two are
  equal. The code compares with the encoding the transceiver reports, not with what it
  pushed: a policy whose camera sender still reports an encoding with no field set, and
  which has pushed \<open>{scaleResolutionDownBy = 1, maxBitrate = 1400000}\<close> once, recomputes
  that same value and pushes it again.
\<close>

theorem updateTransceiverController_counterexample:
  "getStreamCaptureSetting cameraPolicyPushedOnce
     = Some \<lparr>height = Some 720, width = Some 1280\<rparr>
   \<and> last (pushes cameraPolicyPushedOnce) encodingMapKey
       = Some (calculateEncodingParameters cameraPolicyPushedOnce
                 \<lparr>height = Some 720, width = Some 1280\<rparr>)
   \<and> map_option pushes (updateTransceiverController cameraPolicyPushedOnce)
       = Some (pushes cameraPolicyPushedOnce @ [last (pushes cameraPolicyPushedOnce)])
   \<and> map_option pushes (updateTransceiverController cameraPolicyPushedOnce)
       \<noteq> Some (pushes cameraPolicyPushedOnce)"
proof -
  have "differsFromLive cameraPolicyPushedOnce
      \<lparr>scaleResolutionDownBy = Some 1, maxBitrate = Some 1400000\<rparr>"
    by (simp add: differsFromLive_def cameraPolicyPushedOnce_live)
  moreover have "encodingParamMap cameraPolicyPushedOnce =
      [encodingMapKey \<mapsto> \<lparr>scaleResolutionDownBy = Some 1, maxBitrate = Some 1400000\<rparr>]"
    and "transceiverController cameraPolicyPushedOnce = Some (cameraController
          \<lparr>setEncodingParametersCalls :=
             [[encodingMapKey \<mapsto>
                 \<lparr>scaleResolutionDownBy = Some 1, maxBitrate = Some 1400000\<rparr>]]\<rparr>)"
    by (simp_all add: cameraPolicyPushedOnce_eq)
  ultimately show ?thesis
    by (simp add: updateTransceiverController_cases cameraPolicyPushedOnce_settings
        cameraPolicyPushedOnce_encoding cameraPolicyPushedOnce_pushes pushes_def)
qed

text \<open>
  Claim C8, amended: \<^verbatim>\<open>updateTransceiverController()\<close> does nothing without captured
  track settings; with them it recomputes the encoding, whose \<^verbatim>\<open>maxBitrate\<close> is
  \<^verbatim>\<open>maxBandwidthKbps() * 1000\<close>, and pushes it (storing it under the key
  \<^verbatim>\<open>video\<close>) exactly when its bitrate or its scale differs from that of the first send
  encoding the transceiver reports at that moment; when both are equal nothing is pushed
  and the policy is unchanged. The call never fails.
\<close>

theorem updateTransceiverController_pushes_iff_live_differs:
  "(getStreamCaptureSetting this = None \<longrightarrow>
      updateTransceiverController this = Some this)
   \<and> (\<forall>settings. getStreamCaptureSetting this = Some settings \<longrightarrow>
        maxBitrate (calculateEncodingParameters this settings)
          = Some (maxBandwidthKbps this * 1000)
        \<and> (\<exists>this1. updateTransceiverController this = Some this1
              \<and> (if differsFromLive this (calculateEncodingParameters this settings)
                  then pushes this1 =
                         pushes this
                         @ [(encodingParamMap this)
                              (encodingMapKey \<mapsto> calculateEncodingParameters this settings)]
                       \<and> encodingParamMap this1 encodingMapKey
                           = Some (calculateEncodingParameters this settings)
                  else this1 = this)))"
proof (intro conjI allI impI)
  assume "getStreamCaptureSetting this = None"
  then show "updateTransceiverController this = Some this"
    by (simp add: updateTransceiverController_cases)
next
  fix settings
  show "maxBitrate (calculateEncodingParameters this settings)
          = Some (maxBandwidthKbps this * 1000)"
    by (simp add: calculateEncodingParameters_def Let_def)
next
  fix settings
  assume s: "getStreamCaptureSetting this = Some settings"
  then obtain tc where "transceiverController this = Some tc"
    by (auto elim: getStreamCaptureSetting_SomeD)
  with s show "\<exists>this1. updateTransceiverController this = Some this1
              \<and> (if differsFromLive this (calculateEncodingParameters this settings)
                  then pushes this1 =
                         pushes this
                         @ [(encodingParamMap this)
                              (encodingMapKey \<mapsto> calculateEncodingParameters this settings)]
                       \<and> encodingParamMap this1 encodingMapKey
                           = Some (calculateEncodingParameters this settings)
                  else this1 = this)"
    by (simp add: updateTransceiverController_cases pushes_def)
qed

theorem updateTransceiverController_pushes_iff_live_differs_witness:
  "getStreamCaptureSetting cameraPolicy = Some \<lparr>height = Some 720, width = Some 1280\<rparr>
   \<and> differsFromLive cameraPolicy
       (calculateEncodingParameters cameraPolicy \<lparr>height = Some 720, width = Some 1280\<rparr>)
   \<and> (\<exists>this1. updateTransceiverController cameraPolicy = Some this1
         \<and> pushes this1 =
             [[encodingMapKey \<mapsto>
                 \<lparr>scaleResolutionDownBy = Some 1, maxBitrate = Some 1400000\<rparr>]])
   \<and> getStreamCaptureSetting (constructor ''me'' True) = None
   \<and> updateTransceiverController (constructor ''me'' True) = Some (constructor ''me'' True)"
proof -
  have d: "differsFromLive cameraPolicy
       (calculateEncodingParameters cameraPolicy \<lparr>height = Some 720, width = Some 1280\<rparr>)"
    by (simp add: differsFromLive_def cameraPolicy_live cameraPolicy_encoding)
  have m: "encodingParamMap cameraPolicy =
      [encodingMapKey \<mapsto> \<lparr>scaleResolutionDownBy = None, maxBitrate = Some 0\<rparr>]"
    and p: "pushes cameraPolicy = []"
    by (simp_all add: cameraPolicy_def setTransceiverController_def constructor_def
        pushes_def cameraController_def)
  have n: "getStreamCaptureSetting (constructor ''me'' True) = None"
    by (simp add: getStreamCaptureSetting_def constructor_def)
  from updateTransceiverController_pushes_iff_live_differs [of cameraPolicy]
    cameraPolicy_settings d
  have "\<exists>this1. updateTransceiverController cameraPolicy = Some this1
         \<and> pushes this1 =
             [[encodingMapKey \<mapsto>
                 \<lparr>scaleResolutionDownBy = Some 1, maxBitrate = Some 1400000\<rparr>]]"
    by (auto simp add: m p cameraPolicy_encoding)
  moreover from updateTransceiverController_pushes_iff_live_differs
      [of "constructor ''me'' True"] n
  have "updateTransceiverController (constructor ''me'' True) = Some (constructor ''me'' True)"
    by blast
  ultimately show ?thesis
    using cameraPolicy_settings d n by blast
qed

subsection \<open>Codec preferences\<close>

text \<open>
  Claim C9: \<^verbatim>\<open>setVideoCodecPreferences(list)\<close> stores the list and sets the
  pending-change flag; a later \<^verbatim>\<open>chooseVideoCodecPreferences()\<close>, with no other
  \<^verbatim>\<open>setVideoCodecPreferences\<close> in between, returns that list; and after any
  \<^verbatim>\<open>chooseVideoCodecPreferences()\<close> the flag is clear, so that \<^verbatim>\<open>wantsResubscribe()\<close>
  is then true only if the two parameter sets differ.
\<close>

theorem codecPreferences_set_then_choose:
  "videoCodecPreferences (setVideoCodecPreferences l this) = l
   \<and> wantsResubscribeForVideoCodecPreferenceChange (setVideoCodecPreferences l this)
   \<and> fst (chooseVideoCodecPreferences (setVideoCodecPreferences l this)) = l
   \<and> ((\<forall>l'. SetVideoCodecPreferences l' \<notin> set ops) \<longrightarrow>
        fst (chooseVideoCodecPreferences (calls ops (setVideoCodecPreferences l this))) = l)
   \<and> \<not> wantsResubscribeForVideoCodecPreferenceChange (snd (chooseVideoCodecPreferences that))
   \<and> wantsResubscribe (snd (chooseVideoCodecPreferences that))
       = (optimalParameters that \<noteq> parametersInEffect that)"
proof -
  have "videoCodecPreferences (calls ops (setVideoCodecPreferences l this)) = l"
    if "\<forall>l'. SetVideoCodecPreferences l' \<notin> set ops"
    using that by (simp add: calls_preferences setVideoCodecPreferences_def)
  then show ?thesis
    by (auto simp add: setVideoCodecPreferences_def chooseVideoCodecPreferences_def Let_def
        wantsResubscribe_def equal_def)
qed

theorem codecPreferences_set_then_choose_witness:
  "fst (chooseVideoCodecPreferences
          (calls [UpdateIndex threeOthers, ChooseCaptureAndEncodeParameters]
             (setVideoCodecPreferences [h264ConstrainedBaselineProfile, vp8]
                (constructor ''me'' True))))
   = [h264ConstrainedBaselineProfile, vp8]"
  using codecPreferences_set_then_choose [of "[h264ConstrainedBaselineProfile, vp8]"
      "constructor ''me'' True" "[UpdateIndex threeOthers, ChooseCaptureAndEncodeParameters]"]
  by simp

subsection \<open>The setters\<close>

text \<open>
  Claim C10: \<^verbatim>\<open>setIdealMaxBandwidthKbps\<close> and \<^verbatim>\<open>setHasBandwidthPriority\<close> change their
  own field and nothing else; \<^verbatim>\<open>optimalParameters\<close> and \<^verbatim>\<open>parametersInEffect\<close> stay,
  so \<^verbatim>\<open>wantsResubscribe()\<close> and the result of \<^verbatim>\<open>chooseCaptureAndEncodeParameters()\<close>
  are what they were before the setter; after the next \<^verbatim>\<open>updateIndex\<close> the chosen
  bitrate is \<^verbatim>\<open>maxBandwidthKbps()\<close> of the policy with the new value.
\<close>

theorem setters_do_not_recompute:
  "setIdealMaxBandwidthKbps v this = this\<lparr>idealMaxBandwidthKbps := v\<rparr>
   \<and> setHasBandwidthPriority b this = this\<lparr>hasBandwidthPriority := b\<rparr>
   \<and> optimalParameters (setIdealMaxBandwidthKbps v this) = optimalParameters this
   \<and> parametersInEffect (setIdealMaxBandwidthKbps v this) = parametersInEffect this
   \<and> optimalParameters (setHasBandwidthPriority b this) = optimalParameters this
   \<and> parametersInEffect (setHasBandwidthPriority b this) = parametersInEffect this
   \<and> wantsResubscribe (setIdealMaxBandwidthKbps v this) = wantsResubscribe this
   \<and> wantsResubscribe (setHasBandwidthPriority b this) = wantsResubscribe this
   \<and> fst (chooseCaptureAndEncodeParameters (setIdealMaxBandwidthKbps v this))
       = fst (chooseCaptureAndEncodeParameters this)
   \<and> fst (chooseCaptureAndEncodeParameters (setHasBandwidthPriority b this))
       = fst (chooseCaptureAndEncodeParameters this)
   \<and> maxEncodeBitrateKbps
        (fst (chooseCaptureAndEncodeParameters
               (updateIndex videoIndex (setIdealMaxBandwidthKbps v this))))
       = maxBandwidthKbps (updateIndex videoIndex (setIdealMaxBandwidthKbps v this))
   \<and> maxEncodeBitrateKbps
        (fst (chooseCaptureAndEncodeParameters
               (updateIndex videoIndex (setHasBandwidthPriority b this))))
       = maxBandwidthKbps (updateIndex videoIndex (setHasBandwidthPriority b this))
   \<and> idealMaxBandwidthKbps (updateIndex videoIndex (setIdealMaxBandwidthKbps v this)) = v
   \<and> hasBandwidthPriority (updateIndex videoIndex (setHasBandwidthPriority b this)) = b"
  by (simp add: setIdealMaxBandwidthKbps_def setHasBandwidthPriority_def wantsResubscribe_def
      chooseCaptureAndEncodeParameters_def clone_def Let_def updateIndex_def
      maxBandwidthKbps_def)

theorem setters_do_not_recompute_witness:
  "\<not> wantsResubscribe
       (setIdealMaxBandwidthKbps 600
          (calls [UpdateIndex threeOthers, ChooseCaptureAndEncodeParameters]
             (constructor ''me'' True)))
   \<and> maxEncodeBitrateKbps
       (fst (chooseCaptureAndEncodeParameters
          (setIdealMaxBandwidthKbps 600
             (calls [UpdateIndex threeOthers, ChooseCaptureAndEncodeParameters]
                (constructor ''me'' True))))) = 933
   \<and> maxBandwidthKbps
       (setIdealMaxBandwidthKbps 600
          (calls [UpdateIndex threeOthers, ChooseCaptureAndEncodeParameters]
             (constructor ''me'' True))) = 400"
proof -
  let ?s = "calls [UpdateIndex threeOthers, ChooseCaptureAndEncodeParameters]
              (constructor ''me'' True)"
  have n: "numParticipants ?s = 4" and p: "\<not> hasBandwidthPriority ?s"
    by (simp_all add: calls_def updateIndex_def Let_def chooseCaptureAndEncodeParameters_def
        clone_def constructor_def threeOthers_def)
  have b: "maxEncodeBitrateKbps (optimalParameters ?s) = 933"
    by (simp add: calls_def updateIndex_def Let_def chooseCaptureAndEncodeParameters_def
        clone_def constructor_def threeOthers_def maxBandwidthKbps_def rate_4_1400
        Math_trunc_def floor_rat_numeral_div)
  have w: "\<not> wantsResubscribe ?s"
    by (simp add: wantsResubscribe_def equal_def clone_def calls_def updateIndex_def Let_def
        chooseCaptureAndEncodeParameters_def constructor_def)
  have m: "maxBandwidthKbps (setIdealMaxBandwidthKbps 600 ?s) = 400"
    by (simp add: maxBandwidthKbps_def setIdealMaxBandwidthKbps_def n p rate_4_600
        Math_trunc_def)
  note t = setters_do_not_recompute [of 600 ?s True threeOthers]
  from t have "wantsResubscribe (setIdealMaxBandwidthKbps 600 ?s) = wantsResubscribe ?s"
    by (elim conjE)
  moreover from t have "fst (chooseCaptureAndEncodeParameters (setIdealMaxBandwidthKbps 600 ?s))
      = fst (chooseCaptureAndEncodeParameters ?s)"
    by (elim conjE)
  moreover have "fst (chooseCaptureAndEncodeParameters ?s) = optimalParameters ?s"
    by (simp add: chooseCaptureAndEncodeParameters_def clone_def Let_def)
  ultimately show ?thesis
    using w b m by simp
qed

section \<open>Properties of the codec reordering\<close>

lemma precededBy_nth:
  "precededBy before q p xs \<Longrightarrow> j < length xs \<Longrightarrow> xs ! j = q \<Longrightarrow>
   (if j = 0 then before = Some p else xs ! (j - 1) = p)"
proof (induction xs arbitrary: before j)
  case Nil
  then show ?case by simp
next
  case (Cons x xs)
  show ?case
  proof (cases j)
    case 0
    with Cons.prems show ?thesis by simp
  next
    case (Suc k)
    with Cons.prems have "precededBy (Some x) q p xs" and "k < length xs" and "xs ! k = q"
      by simp_all
    then have "if k = 0 then Some x = Some p else xs ! (k - 1) = p"
      by (rule Cons.IH)
    with Suc show ?thesis by (cases k) simp_all
  qed
qed

lemma precededBy_append:
  "precededBy before q p (xs @ ys) =
     (precededBy before q p xs
      \<and> precededBy (if xs = [] then before else Some (last xs)) q p ys)"
  by (induction xs arbitrary: before) auto

lemma immediatelyAfterI:
  assumes "q \<in> set order" and "precededBy None q p order"
  shows "immediatelyAfter q p order"
  unfolding immediatelyAfter_def
proof (intro conjI allI impI)
  show "q \<in> set order" by fact
next
  fix j assume "j < length order" and "order ! j = q"
  with assms(2) have "if j = 0 then None = Some p else order ! (j - 1) = p"
    by (rule precededBy_nth)
  then show "0 < j" by (cases j) simp_all
next
  fix j assume "j < length order" and "order ! j = q"
  with assms(2) have "if j = 0 then None = Some p else order ! (j - 1) = p"
    by (rule precededBy_nth)
  then show "order ! (j - 1) = p" by (cases j) simp_all
qed

lemma rtxOf_SomeD: "rtxOf sec x = Some r \<Longrightarrow> aptOf sec r = Some x \<and> r \<in> set (payloadTypes sec)"
  by (auto simp add: rtxOf_def find_Some_iff)

lemma rtxOf_unique:
  assumes "q \<in> set (payloadTypes sec)" and "aptOf sec q = Some p"
    and "\<forall>r \<in> set (payloadTypes sec). aptOf sec r = Some p \<longrightarrow> r = q"
  shows "rtxOf sec p = Some q"
proof (cases "rtxOf sec p")
  case None
  with assms(1,2) show ?thesis by (auto simp add: rtxOf_def find_None_iff)
next
  case (Some r)
  then have "aptOf sec r = Some p" and "r \<in> set (payloadTypes sec)"
    by (simp_all add: rtxOf_SomeD)
  with assms(3) Some show ?thesis by auto
qed

lemma withRtx_not_Nil: "withRtx sec x \<noteq> []"
  by (simp add: withRtx_def)

lemma precededBy_withRtx:
  assumes "aptOf sec x = None" and "aptOf sec q = Some p"
  shows "precededBy before q p (withRtx sec x)"
proof -
  from assms have "x \<noteq> q" by auto
  moreover have "r = q \<Longrightarrow> x = p" if "rtxOf sec x = Some r" for r
    using rtxOf_SomeD [OF that] assms(2) by auto
  ultimately show ?thesis
    by (auto simp add: withRtx_def split: option.splits)
qed

lemma precededBy_blocks:
  assumes "\<forall>x \<in> set xs. aptOf sec x = None" and "aptOf sec q = Some p"
  shows "precededBy before q p (concat (map (withRtx sec) xs))"
  using assms(1)
proof (induction xs arbitrary: before)
  case Nil
  show ?case by simp
next
  case (Cons x xs)
  then have "aptOf sec x = None" and "\<forall>x \<in> set xs. aptOf sec x = None" by simp_all
  then show ?case
    using Cons.IH precededBy_withRtx [OF _ assms(2)]
    by (simp add: precededBy_append withRtx_not_Nil)
qed

lemma placePreferred_subset:
  "set (placePreferred sec preferences placed) \<subseteq> set placed \<union> set (primaries sec)"
  by (induction preferences arbitrary: placed) (simp, fastforce)

lemma primaries_apt: "x \<in> set (primaries sec) \<Longrightarrow> aptOf sec x = None"
  by (simp add: primaries_def)

lemma precededBy_absent: "q \<notin> set xs \<Longrightarrow> precededBy before q p xs"
  by (induction xs arbitrary: before) auto

lemma reordered_immediatelyAfter:
  assumes p: "p \<in> set (payloadTypes sec)" "aptOf sec p = None"
    and q: "q \<in> set (payloadTypes sec)" "aptOf sec q = Some p"
    and u: "\<forall>r \<in> set (payloadTypes sec). aptOf sec r = Some p \<longrightarrow> r = q"
  shows "immediatelyAfter q p (reorderedPayloadTypes sec preferences)"
proof -
  let ?matched = "placePreferred sec preferences []"
  let ?order = "?matched @ filter (\<lambda>x. x \<notin> set ?matched) (primaries sec)"
  define placed where "placed = concat (map (withRtx sec) ?order)"
  define rest where "rest = filter (\<lambda>x. x \<notin> set placed) (payloadTypes sec)"
  have r: "reorderedPayloadTypes sec preferences = placed @ rest"
    unfolding rest_def placed_def by (simp only: reorderedPayloadTypes_def Let_def)
  have prim: "\<forall>x \<in> set ?order. aptOf sec x = None"
    using placePreferred_subset [of sec preferences "[]"] by (auto simp add: primaries_apt)
  from p have "p \<in> set (primaries sec)" by (simp add: primaries_def)
  then have "p \<in> set ?order" by auto
  moreover have "withRtx sec p = [p, q]"
    using rtxOf_unique [OF q u] by (simp add: withRtx_def)
  ultimately have inPlaced: "q \<in> set placed" unfolding placed_def by force
  then have "q \<notin> set rest" unfolding rest_def by simp
  then have "precededBy (if placed = [] then None else Some (last placed)) q p rest"
    by (rule precededBy_absent)
  moreover have "precededBy None q p placed"
    unfolding placed_def using prim q(2) by (rule precededBy_blocks)
  ultimately have "precededBy None q p (placed @ rest)"
    by (simp only: precededBy_append simp_thms)
  moreover from inPlaced have "q \<in> set (placed @ rest)" by simp
  ultimately show ?thesis
    unfolding r by (rule immediatelyAfterI [rotated])
qed

lemma in_concat_mapE:
  assumes "x \<in> set (concat (map f ys))"
  obtains y where "y \<in> set ys" and "x \<in> set (f y)"
  using assms by auto

lemma order_set:
  "set (placePreferred sec preferences []
        @ filter (\<lambda>x. x \<notin> set (placePreferred sec preferences [])) (primaries sec))
   = set (primaries sec)"
  using placePreferred_subset [of sec preferences "[]"] by auto

lemma placed_payloadTypes:
  assumes "x \<in> set (concat (map (withRtx sec)
          (placePreferred sec preferences []
           @ filter (\<lambda>x. x \<notin> set (placePreferred sec preferences [])) (primaries sec))))"
  shows "x \<in> set (payloadTypes sec)"
proof -
  from assms obtain y where "y \<in> set (placePreferred sec preferences []
           @ filter (\<lambda>x. x \<notin> set (placePreferred sec preferences [])) (primaries sec))"
    and x: "x \<in> set (withRtx sec y)"
    by (rule in_concat_mapE)
  then have y: "y \<in> set (primaries sec)" by (simp only: order_set)
  then have "y \<in> set (payloadTypes sec)" by (simp add: primaries_def)
  from x have "x = y \<or> rtxOf sec y = Some x"
    by (cases "rtxOf sec y") (auto simp add: withRtx_def)
  then show ?thesis
  proof
    assume "x = y"
    with \<open>y \<in> set (payloadTypes sec)\<close> show ?thesis by simp
  next
    assume "rtxOf sec y = Some x"
    then show ?thesis by (simp add: rtxOf_SomeD)
  qed
qed

text \<open>The reordering keeps the full set of payload types.\<close>

lemma reordered_keeps_payloadTypes:
  "set (reorderedPayloadTypes sec preferences) = set (payloadTypes sec)"
proof -
  define placed where "placed = concat (map (withRtx sec)
          (placePreferred sec preferences []
           @ filter (\<lambda>x. x \<notin> set (placePreferred sec preferences [])) (primaries sec)))"
  have r: "reorderedPayloadTypes sec preferences
      = placed @ filter (\<lambda>x. x \<notin> set placed) (payloadTypes sec)"
    unfolding placed_def by (simp only: reorderedPayloadTypes_def Let_def)
  have sub: "set placed \<subseteq> set (payloadTypes sec)"
    unfolding placed_def using placed_payloadTypes by blast
  show ?thesis
    unfolding r using sub by auto
qed

lemma isSendingVideo_payloadTypes_update:
  "isSendingVideo (sec\<lparr>payloadTypes := pts\<rparr>) = isSendingVideo sec"
  by (simp add: isSendingVideo_def)

lemma find_rewriteSendingVideo:
  assumes "\<And>sec. isSendingVideo (f sec) = isSendingVideo sec"
  shows "find isSendingVideo (rewriteSendingVideo f secs)
     = map_option f (find isSendingVideo secs)"
  by (induction secs) (simp_all add: assms)

lemma videoSendPayloadTypes_with:
  assumes "sendingVideoSection sdp = Some sec"
  shows "videoSendPayloadTypes (withVideoSendCodecPreferences preferences sdp)
     = (if preferences = [] then payloadTypes sec else reorderedPayloadTypes sec preferences)"
  using assms
  by (simp add: videoSendPayloadTypes_def sendingVideoSection_def
      withVideoSendCodecPreferences_def find_rewriteSendingVideo
      isSendingVideo_payloadTypes_update)

lemma exampleOffer_section: "sendingVideoSection exampleOffer = Some exampleVideoSection"
  by (simp add: sendingVideoSection_def exampleOffer_def isSendingVideo_def
      exampleVideoSection_def)

lemma reordered_example:
  assumes pts: "payloadTypes sec = [96, 97, 98, 99]"
    and h: "matches sec h264ConstrainedBaselineProfile 98" "aptOf sec 98 = None"
    and r: "aptOf sec 99 = Some 98"
    and o: "aptOf sec 96 = None" "\<not> matches sec h264ConstrainedBaselineProfile 96"
    and s: "aptOf sec 97 = Some 96
            \<or> (aptOf sec 97 = None \<and> \<not> matches sec h264ConstrainedBaselineProfile 97)"
  shows "reorderedPayloadTypes sec [h264ConstrainedBaselineProfile] = [98, 99, 96, 97]"
  using s
proof
  assume "aptOf sec 97 = Some 96"
  with pts h r o show ?thesis
    by (simp add: reorderedPayloadTypes_def Let_def primaries_def withRtx_def rtxOf_def)
next
  assume "aptOf sec 97 = None \<and> \<not> matches sec h264ConstrainedBaselineProfile 97"
  with pts h r o show ?thesis
    by (simp add: reorderedPayloadTypes_def Let_def primaries_def withRtx_def rtxOf_def)
qed

text \<open>
  Claim C2: in a description whose sending video section has the payload-type order
  [96, 97, 98, 99], where 98 is a primary payload type that matches H.264 constrained
  baseline, 99 is its rtx (linked by \<^verbatim>\<open>apt=98\<close>), 96 is a primary payload type of
  another codec and 97 is the rtx of 96 or one more primary of another codec,
  \<^verbatim>\<open>withVideoSendCodecPreferences([H264])\<close> yields the order [98, 99, 96, 97]; and for
  every non-empty preference list, every rtx payload type of the section that is the one
  rtx of a primary payload type of the section occurs in the new order, and only directly
  after that primary.
\<close>

theorem withVideoSendCodecPreferences_order:
  "sendingVideoSection sdp = Some sec \<longrightarrow>
     (payloadTypes sec = [96, 97, 98, 99]
      \<and> matches sec h264ConstrainedBaselineProfile 98 \<and> aptOf sec 98 = None
      \<and> aptOf sec 99 = Some 98
      \<and> aptOf sec 96 = None \<and> \<not> matches sec h264ConstrainedBaselineProfile 96
      \<and> (aptOf sec 97 = Some 96
          \<or> (aptOf sec 97 = None \<and> \<not> matches sec h264ConstrainedBaselineProfile 97))
      \<longrightarrow> videoSendPayloadTypes
            (withVideoSendCodecPreferences [h264ConstrainedBaselineProfile] sdp)
          = [98, 99, 96, 97])
     \<and> (preferences \<noteq> []
        \<and> p \<in> set (payloadTypes sec) \<and> aptOf sec p = None
        \<and> q \<in> set (payloadTypes sec) \<and> aptOf sec q = Some p
        \<and> (\<forall>r \<in> set (payloadTypes sec). aptOf sec r = Some p \<longrightarrow> r = q)
        \<longrightarrow> immediatelyAfter q p
              (videoSendPayloadTypes (withVideoSendCodecPreferences preferences sdp)))"
proof (intro impI conjI)
  assume sec: "sendingVideoSection sdp = Some sec"
  assume "payloadTypes sec = [96, 97, 98, 99]
      \<and> matches sec h264ConstrainedBaselineProfile 98 \<and> aptOf sec 98 = None
      \<and> aptOf sec 99 = Some 98
      \<and> aptOf sec 96 = None \<and> \<not> matches sec h264ConstrainedBaselineProfile 96
      \<and> (aptOf sec 97 = Some 96
          \<or> (aptOf sec 97 = None \<and> \<not> matches sec h264ConstrainedBaselineProfile 97))"
  then have "reorderedPayloadTypes sec [h264ConstrainedBaselineProfile] = [98, 99, 96, 97]"
    by (intro reordered_example) simp_all
  then show "videoSendPayloadTypes
            (withVideoSendCodecPreferences [h264ConstrainedBaselineProfile] sdp)
          = [98, 99, 96, 97]"
    by (simp add: videoSendPayloadTypes_with [OF sec])
next
  assume sec: "sendingVideoSection sdp = Some sec"
  assume a: "preferences \<noteq> []
        \<and> p \<in> set (payloadTypes sec) \<and> aptOf sec p = None
        \<and> q \<in> set (payloadTypes sec) \<and> aptOf sec q = Some p
        \<and> (\<forall>r \<in> set (payloadTypes sec). aptOf sec r = Some p \<longrightarrow> r = q)"
  then have "immediatelyAfter q p (reorderedPayloadTypes sec preferences)"
    by (intro reordered_immediatelyAfter) simp_all
  with a show "immediatelyAfter q p
              (videoSendPayloadTypes (withVideoSendCodecPreferences preferences sdp))"
    by (simp add: videoSendPayloadTypes_with [OF sec])
qed

lemma exampleVideoSection_payloadTypes: "payloadTypes exampleVideoSection = [96, 97, 98, 99]"
  by (simp add: exampleVideoSection_def)

lemma exampleVideoSection_apt:
  "aptOf exampleVideoSection 96 = None" "aptOf exampleVideoSection 97 = Some 96"
  "aptOf exampleVideoSection 98 = None" "aptOf exampleVideoSection 99 = Some 98"
  by (simp_all add: aptOf_def exampleVideoSection_def entryOf_def aptParameter_def
      fmtpParameters_def parseNumber_def digitValue_def)

lemma exampleVideoSection_matches:
  "matches exampleVideoSection h264ConstrainedBaselineProfile 98"
  "\<not> matches exampleVideoSection h264ConstrainedBaselineProfile 96"
  by (simp_all add: matches_def exampleVideoSection_def entryOf_def matchesPreference_def
      h264ConstrainedBaselineProfile_def fmtpParameters_def)

theorem withVideoSendCodecPreferences_order_witness:
  "videoSendPayloadTypes
     (withVideoSendCodecPreferences [h264ConstrainedBaselineProfile] exampleOffer)
   = [98, 99, 96, 97]
   \<and> immediatelyAfter 99 98
       (videoSendPayloadTypes
          (withVideoSendCodecPreferences [h264ConstrainedBaselineProfile] exampleOffer))
   \<and> immediatelyAfter 97 96
       (videoSendPayloadTypes
          (withVideoSendCodecPreferences [h264ConstrainedBaselineProfile] exampleOffer))"
  using withVideoSendCodecPreferences_order [of exampleOffer exampleVideoSection
      "[h264ConstrainedBaselineProfile]" 98 99]
    withVideoSendCodecPreferences_order [of exampleOffer exampleVideoSection
      "[h264ConstrainedBaselineProfile]" 96 97]
  by (auto simp add: exampleOffer_section exampleVideoSection_payloadTypes
      exampleVideoSection_apt exampleVideoSection_matches)


section \<open>Properties of the task\<close>

lemma steps_Nil: "steps [] this = this"
  by (simp add: steps_def)

lemma steps_Cons: "steps (ev # evs) this = steps evs (step ev this)"
  by (simp add: steps_def)

lemma steps_append: "steps (evs @ evs') this = steps evs' (steps evs this)"
  by (simp add: steps_def)

lemma step_settled:
  "awaited this = Some st \<Longrightarrow> st \<noteq> Pending \<Longrightarrow> awaited (step ev this) = Some st"
  by (cases ev; cases st)
    (simp_all add: cancel_def setLocalDescriptionFulfilled_def setLocalDescriptionRejected_def
      executorResumes_def settle_def split: option.splits PromiseState.splits)

lemma steps_settled:
  "awaited this = Some st \<Longrightarrow> st \<noteq> Pending \<Longrightarrow> awaited (steps evs this) = Some st"
  by (induction evs arbitrary: this) (simp_all add: steps_Nil steps_Cons step_settled)

lemma step_commits: "commits (step ev this) = commits this"
  by (cases ev)
    (simp_all add: commits_def cancel_def setLocalDescriptionFulfilled_def
      setLocalDescriptionRejected_def executorResumes_def
      split: option.splits PromiseState.splits)

lemma steps_commits: "commits (steps evs this) = commits this"
  by (induction evs arbitrary: this) (simp_all add: steps_Nil steps_Cons step_commits)

lemma run_commits: "commits (run env this) = Suc (commits this)"
  by (simp add: run_def commits_def Let_def split: prod.splits)

lemma run_fields:
  "awaited (run env this) = Some Pending" "cancelPromise (run env this)"
  "setLocalDescriptionPromise (run env this) = Some Pending"
  "executorSuspended (run env this)" "name (run env this) = name this"
  by (simp_all add: run_def Let_def split: prod.splits)

lemma step_cancellable:
  "cancellable this0 this \<Longrightarrow> ev \<noteq> ExecutorResumes \<Longrightarrow> cancellable this0 (step ev this)"
  by (cases ev)
    (auto simp add: cancellable_def cancel_def setLocalDescriptionFulfilled_def
      setLocalDescriptionRejected_def settle_def)

lemma steps_cancellable:
  "cancellable this0 this \<Longrightarrow> ExecutorResumes \<notin> set evs \<Longrightarrow>
   cancellable this0 (steps evs this)"
proof (induction evs arbitrary: this)
  case Nil
  then show ?case by (simp add: steps_Nil)
next
  case (Cons ev evs)
  from Cons.prems have "ev \<noteq> ExecutorResumes" and "ExecutorResumes \<notin> set evs" by auto
  with Cons.prems(1) have "cancellable this0 (step ev this)"
    by (simp add: step_cancellable)
  with \<open>ExecutorResumes \<notin> set evs\<close> show ?case
    by (simp add: steps_Cons Cons.IH)
qed

lemma cancel_cancellable:
  "cancellable this0 this \<Longrightarrow>
   awaited (cancel this) = Some (Rejected (Error (''canceling '' @ name this0)))"
  by (auto simp add: cancellable_def cancel_def settle_def)

lemma run_cancellable: "cancellable this (run env this)"
  by (simp add: cancellable_def run_fields)

lemma exampleTask_offer:
  "map videoSendPayloadTypes
     (setLocalDescriptionCalls (peer (taskContext (run exampleEnvironment exampleTask))))
   = [[98, 99, 96, 97]]"
proof -
  have "reorderedPayloadTypes exampleVideoSection [h264ConstrainedBaselineProfile]
      = [98, 99, 96, 97]"
    by (rule reordered_example)
      (simp_all add: exampleVideoSection_payloadTypes exampleVideoSection_apt
        exampleVideoSection_matches)
  then have "videoSendPayloadTypes
      (withVideoSendCodecPreferences [h264ConstrainedBaselineProfile] exampleOffer)
      = [98, 99, 96, 97]"
    by (simp add: videoSendPayloadTypes_with [OF exampleOffer_section])
  then show ?thesis
    by (simp add: run_def prepareOffer_def Let_def exampleTask_def newTask_def
        exampleContext_def exampleEnvironment_def chooseVideoCodecPreferences_def
        setVideoCodecPreferences_def)
qed

text \<open>
  Claim C3 says, among other things, that a \<^verbatim>\<open>cancel()\<close> after the commit has
  successfully resolved has no effect on the outcome. Between the fulfilment of
  \<^verbatim>\<open>peer.setLocalDescription\<close> and the resumption of the executor \<^verbatim>\<open>cancelPromise\<close> is
  still set: a \<^verbatim>\<open>cancel()\<close> there makes \<^verbatim>\<open>run()\<close> fail, although the commit has
  succeeded and \<^verbatim>\<open>run()\<close> would have completed without it.
\<close>

theorem cancel_after_commit_counterexample:
  "setLocalDescriptionPromise
     (steps [SetLocalDescriptionFulfilled] (run exampleEnvironment exampleTask))
   = Some Fulfilled
   \<and> outcome (steps [SetLocalDescriptionFulfilled, ExecutorResumes]
        (run exampleEnvironment exampleTask)) = Completed
   \<and> outcome (steps [SetLocalDescriptionFulfilled, Cancel, ExecutorResumes]
        (run exampleEnvironment exampleTask))
     = Failed (Error ''canceling SetLocalDescriptionTask'')"
  by (simp add: steps_def outcome_def cancel_def setLocalDescriptionFulfilled_def
      executorResumes_def settle_def run_fields exampleTask_def newTask_def)

text \<open>
  Claim C3, amended: once \<^verbatim>\<open>run()\<close> is suspended, a \<^verbatim>\<open>cancel()\<close> that comes before
  the executor has resumed, be it before \<^verbatim>\<open>peer.setLocalDescription\<close> settles or
  between its settlement and the resumption, makes \<^verbatim>\<open>run()\<close> fail with the error whose
  message is \<^verbatim>\<open>canceling\<close> and the task's name, whatever happens afterwards;
  \<^verbatim>\<open>peer.setLocalDescription\<close> is called once by \<^verbatim>\<open>run()\<close> and by nothing that
  follows; and once the executor has resumed from a fulfilled call \<^verbatim>\<open>run()\<close>
  completes, a later \<^verbatim>\<open>cancel()\<close> leaving the task as it is. A rejection of the call
  with any other error, from which the executor resumes, ends \<^verbatim>\<open>run()\<close> with that
  error.
\<close>

theorem cancel_before_executor_resumes:
  "outcome (run env this) = Suspended
   \<and> (ExecutorResumes \<notin> set before \<longrightarrow>
        outcome (steps (before @ Cancel # after) (run env this))
          = Failed (Error (''canceling '' @ name this)))
   \<and> commits (steps evs (run env this)) = commits this + 1
   \<and> outcome (steps (SetLocalDescriptionFulfilled # ExecutorResumes # after) (run env this))
       = Completed
   \<and> cancel (executorResumes (setLocalDescriptionFulfilled (run env this)))
       = executorResumes (setLocalDescriptionFulfilled (run env this))
   \<and> outcome
        (steps (SetLocalDescriptionRejected error # ExecutorResumes # after) (run env this))
       = Failed error"
proof (intro conjI impI)
  show "outcome (run env this) = Suspended"
    by (simp add: outcome_def run_fields)
next
  assume "ExecutorResumes \<notin> set before"
  with run_cancellable have "cancellable this (steps before (run env this))"
    by (rule steps_cancellable)
  then have "awaited (cancel (steps before (run env this)))
      = Some (Rejected (Error (''canceling '' @ name this)))"
    by (rule cancel_cancellable)
  then have "awaited (steps after (cancel (steps before (run env this))))
      = Some (Rejected (Error (''canceling '' @ name this)))"
    by (rule steps_settled) simp
  then show "outcome (steps (before @ Cancel # after) (run env this))
          = Failed (Error (''canceling '' @ name this))"
    by (simp add: outcome_def steps_append steps_Cons)
next
  show "commits (steps evs (run env this)) = commits this + 1"
    by (simp add: steps_commits run_commits)
next
  have "awaited (executorResumes (setLocalDescriptionFulfilled (run env this)))
      = Some Fulfilled"
    by (simp add: executorResumes_def setLocalDescriptionFulfilled_def run_fields settle_def)
  then have "awaited (steps after
      (executorResumes (setLocalDescriptionFulfilled (run env this)))) = Some Fulfilled"
    by (rule steps_settled) simp
  then show "outcome
      (steps (SetLocalDescriptionFulfilled # ExecutorResumes # after) (run env this))
      = Completed"
    by (simp add: outcome_def steps_Cons)
next
  show "cancel (executorResumes (setLocalDescriptionFulfilled (run env this)))
       = executorResumes (setLocalDescriptionFulfilled (run env this))"
    by (simp add: cancel_def executorResumes_def setLocalDescriptionFulfilled_def run_fields
        settle_def)
next
  have "awaited (executorResumes (setLocalDescriptionRejected error (run env this)))
      = Some (Rejected error)"
    by (simp add: executorResumes_def setLocalDescriptionRejected_def run_fields settle_def)
  then have "awaited (steps after
      (executorResumes (setLocalDescriptionRejected error (run env this))))
      = Some (Rejected error)"
    by (rule steps_settled) simp
  then show "outcome
      (steps (SetLocalDescriptionRejected error # ExecutorResumes # after) (run env this))
      = Failed error"
    by (simp add: outcome_def steps_Cons)
qed

theorem cancel_before_executor_resumes_witness:
  "outcome (steps [Cancel, SetLocalDescriptionFulfilled, ExecutorResumes]
      (run exampleEnvironment exampleTask))
     = Failed (Error ''canceling SetLocalDescriptionTask'')
   \<and> commits (steps [Cancel, SetLocalDescriptionFulfilled, ExecutorResumes]
        (run exampleEnvironment exampleTask)) = 1
   \<and> outcome (steps [SetLocalDescriptionFulfilled, ExecutorResumes, Cancel]
        (run exampleEnvironment exampleTask)) = Completed"
proof -
  note a = cancel_before_executor_resumes [of exampleEnvironment exampleTask "[]"
      "[SetLocalDescriptionFulfilled, ExecutorResumes]"
      "[Cancel, SetLocalDescriptionFulfilled, ExecutorResumes]" "Error ''other''"]
  note b = cancel_before_executor_resumes [of exampleEnvironment exampleTask "[]"
      "[Cancel]" "[]" "Error ''other''"]
  have n: "name exampleTask = ''SetLocalDescriptionTask''"
    and c: "commits exampleTask = 0"
    by (simp_all add: exampleTask_def newTask_def exampleContext_def commits_def)
  from a have "ExecutorResumes \<notin> set [] \<longrightarrow>
      outcome (steps ([] @ Cancel # [SetLocalDescriptionFulfilled, ExecutorResumes])
        (run exampleEnvironment exampleTask))
      = Failed (Error (''canceling '' @ name exampleTask))"
    by (elim conjE)
  then have "outcome (steps [Cancel, SetLocalDescriptionFulfilled, ExecutorResumes]
      (run exampleEnvironment exampleTask)) = Failed (Error (''canceling '' @ name exampleTask))"
    by simp
  moreover from a have "commits (steps [Cancel, SetLocalDescriptionFulfilled, ExecutorResumes]
      (run exampleEnvironment exampleTask)) = commits exampleTask + 1"
    by (elim conjE)
  moreover from b have "outcome (steps [SetLocalDescriptionFulfilled, ExecutorResumes, Cancel]
      (run exampleEnvironment exampleTask)) = Completed"
    by (elim conjE)
  ultimately show ?thesis
    by (simp add: n c)
qed

end
